theory Spec2Isabelle
  imports Main "HOL-Library.Char_ord" "HOL-Library.List_Lexorder" "HOL-Library.Multiset"
begin

section \<open>The webhooks controller of internal/services/webhooks/webhooks.go\<close>

text \<open>
  The controller discovers webhook workers, starts one transport and one monitor
  goroutine per worker, and keeps lists of release closures. The embedding below follows
  the Go file function by function:
  \<^item> collaborators (HTTP, the repositories, the token issuer, the worker transport) are
    an environment \<open>env\<close> of replies, indexed by call number where the same call can be
    answered differently over time;
  \<^item> the controller object and everything its goroutines share is the record
    \<open>WebhooksController\<close>, passed through every operation and returned updated;
  \<^item> a Go \<open>func() error\<close> value is a \<open>fn\<close>: \<open>nil\<close>, the release function a transport
    handed out, or the closure a \<open>run\<close> invocation returned. The closure and the monitor
    goroutine of one \<open>run\<close> invocation share the local variable \<open>cleanups\<close>; it lives
    in the \<open>monitor\<close> record of that invocation, addressed by its index;
  \<^item> every observable action (a probe, a repository write, a release, a log line) is
    appended to \<open>trace\<close>;
  \<^item> a goroutine handles one \<open>select\<close> case atomically; the interleaving is a list of
    \<open>event\<close>s.
\<close>

subsection \<open>Data\<close>

text \<open>Go \<open>error\<close> values: one produced by a collaborator, the status-code error of
  \<open>healthcheck\<close>, and \<open>fmt.Errorf("...: %w", err)\<close>.\<close>

datatype error = External string | StatusCode int | Wrapped string error

record WebhookWorkerModel =
  ID :: string
  URL :: string
  Secret :: string

record HealthCheckResponse =
  Actions :: "string list"
  Workflows :: "string list"

record WorkerOpts =
  opt_Token :: string
  opt_ID :: string
  opt_Secret :: string
  opt_URL :: string
  opt_TenantID :: string
  opt_Actions :: "string list"
  opt_Workflows :: "string list"

text \<open>What an HTTP GET of a health endpoint comes back with, as far as \<open>healthcheck\<close>
  looks at it: the request cannot be built, it cannot be sent, or a response with a status
  code whose body cannot be read, cannot be parsed, or parses into a manifest.\<close>

datatype body = ReadAllError error | UnmarshalError error | Manifest HealthCheckResponse

datatype http_reply = NewRequestError error | DoError error | Response int body

text \<open>\<open>webhook.NewWorker\<close> followed by \<open>w.Start()\<close>.\<close>

datatype worker_reply = NewWorkerError error | StartError error | Started

record env =
  http_get :: "nat \<Rightarrow> string \<Rightarrow> http_reply"
  new_worker :: "nat \<Rightarrow> WorkerOpts \<Rightarrow> worker_reply"
  release :: "nat \<Rightarrow> error option"
  update_worker :: "nat \<Rightarrow> error option"
  list_tenants :: "error + string list"
  generate_tenant_token :: "string \<Rightarrow> error + string"
  list_webhook_workers :: "string \<Rightarrow> error + WebhookWorkerModel list"

text \<open>
  \<open>http_get env n url\<close> answers the \<open>n\<close>-th health check of the process,
  \<open>new_worker env n opts\<close> the \<open>n\<close>-th transport creation, \<open>update_worker env n\<close> the
  \<open>n\<close>-th \<open>UpdateWorker\<close> call, and \<open>release env t\<close> is what the release function of the
  \<open>t\<close>-th started transport returns. A tenant is its id string
  (\<open>sqlchelpers.UUIDToStr(tenant.ID)\<close>).
\<close>

datatype fn = FnNil | FnTransport nat | FnRun nat

datatype logmsg =
    ErrorCheckingWebhooks error
  | ErrorRunningWebhookWorker error
  | MarkingAsInactive string string
  | Retrying string string
  | WfsHash string string
  | ActionsHash string string
  | HasChanged string string
  | CouldNotCleanup error
  | CouldNotRestart error
  | HealthyAgain string
  | CouldNotUpdateWorker error

datatype effect =
    Probe string
  | StartWorker WorkerOpts
  | Released nat
  | UpdateWorker string string bool
  | Log logmsg

text \<open>
  The variables one invocation of \<open>run\<close> shares with the goroutine it spawns:
  the arguments, the local \<open>cleanups\<close>, the context (\<open>ctx_done\<close> after \<open>cancel()\<close>), the
  timer made by \<open>time.NewTimer\<close> (armed until it fires; \<open>timer_C\<close> holds the one value it
  sends), the goroutine's locals, and whether the goroutine has returned.
  \<open>healthCheckErrors\<close> is a Go \<open>int\<close>; it only grows by one per probe, so it is an
  unbounded integer here.
\<close>

record monitor =
  m_tenantId :: string
  m_ww :: WebhookWorkerModel
  m_token :: string
  m_cleanups :: "fn list"
  ctx_done :: bool
  timer_armed :: bool
  timer_C :: bool
  wfsHashLast :: string
  actionsHashLast :: string
  healthCheckErrors :: int
  returned :: bool

record WebhooksController =
  registeredWorkerIds :: "string \<rightharpoonup> bool"
  cleanups :: "fn list"
  monitors :: "monitor list"
  workers :: "WorkerOpts list"
  started :: bool
  start_ctx_done :: bool
  scanner_returned :: bool
  gets :: nat
  worker_calls :: nat
  updates :: nat
  trace :: "effect list"

datatype panic = NilFunc | PanicError error

text \<open>A call returns, panics, or has no result in the model: the recursion budget of
  nested closures is used up, or the closure belongs to a \<open>run\<close> invocation that does not
  exist (\<open>run\<close> creates \<open>FnRun i\<close> only together with monitor \<open>i\<close>).\<close>

datatype 'a outcome = Return 'a | Panics panic | NoResult

subsection \<open>hash\<close>

text \<open>\<open>strings.Join\<close>.\<close>

fun Join :: "string list \<Rightarrow> string \<Rightarrow> string" where
  "Join [] sep = []"
| "Join [x] sep = x"
| "Join (x # y # ys) sep = x @ sep @ Join (y # ys) sep"

text \<open>\<open>slices.Sort\<close> orders strings bytewise and lexicographically, which is the order
  of \<open>char list\<close> here; equal strings are indistinguishable, so the sorted slice does not
  depend on the sorting algorithm. The Go function sorts the slice it is given in place
  (\<open>n := s\<close> copies the slice header only); the controller reads a manifest's slices
  again only through \<open>hash\<close>, so the value returned is all that is modelled.\<close>

definition hash :: "string list \<Rightarrow> string" where
  "hash s = (let n = sort s in Join n '','')"

subsection \<open>New, healthcheck, run\<close>

definition New :: WebhooksController where
  "New = \<lparr>registeredWorkerIds = Map.empty, cleanups = [], monitors = [], workers = [],
          started = False, start_ctx_done = False, scanner_returned = False,
          gets = 0, worker_calls = 0, updates = 0, trace = []\<rparr>"

definition emit :: "effect \<Rightarrow> WebhooksController \<Rightarrow> WebhooksController" where
  "emit e c = c\<lparr>trace := trace c @ [e]\<rparr>"

definition healthcheck ::
  "env \<Rightarrow> WebhookWorkerModel \<Rightarrow> WebhooksController
     \<Rightarrow> (error + HealthCheckResponse) \<times> WebhooksController" where
  "healthcheck e w c =
     ((case http_get e (gets c) (URL w) of
         NewRequestError err \<Rightarrow> Inl (Wrapped ''could not create request'' err)
       | DoError err \<Rightarrow> Inl (Wrapped ''could not send request'' err)
       | Response code b \<Rightarrow>
           if code \<noteq> 200 then Inl (StatusCode code)
           else (case b of
                   ReadAllError err \<Rightarrow> Inl (Wrapped ''could not read response body'' err)
                 | UnmarshalError err \<Rightarrow> Inl (Wrapped ''could not unmarshal response body'' err)
                 | Manifest res \<Rightarrow> Inr res)),
      emit (Probe (URL w)) (c\<lparr>gets := gets c + 1\<rparr>))"

definition new_monitor ::
  "string \<Rightarrow> WebhookWorkerModel \<Rightarrow> string \<Rightarrow> fn list \<Rightarrow> HealthCheckResponse \<Rightarrow> monitor" where
  "new_monitor tid w tok cs h =
     \<lparr>m_tenantId = tid, m_ww = w, m_token = tok, m_cleanups = cs, ctx_done = False,
      timer_armed = True, timer_C = False,
      wfsHashLast = hash (Workflows h), actionsHashLast = hash (Actions h),
      healthCheckErrors = 0, returned = False\<rparr>"

definition run ::
  "env \<Rightarrow> string \<Rightarrow> WebhookWorkerModel \<Rightarrow> string \<Rightarrow> WebhooksController
     \<Rightarrow> (fn \<times> error option) \<times> WebhooksController" where
  "run e tid w tok c =
     (case healthcheck e w c of
        (Inl err, c1) \<Rightarrow> ((FnNil, Some (Wrapped ''healthcheck failed'' err)), c1)
      | (Inr h, c1) \<Rightarrow>
          if registeredWorkerIds c1 (ID w) \<noteq> None then ((FnNil, None), c1)
          else
            let c2 = c1\<lparr>registeredWorkerIds := (registeredWorkerIds c1)(ID w \<mapsto> True)\<rparr>;
                opts = \<lparr>opt_Token = tok, opt_ID = ID w, opt_Secret = Secret w,
                        opt_URL = URL w, opt_TenantID = tid,
                        opt_Actions = Actions h, opt_Workflows = Workflows h\<rparr>;
                c3 = c2\<lparr>worker_calls := worker_calls c2 + 1\<rparr>
            in (case new_worker e (worker_calls c2) opts of
                  NewWorkerError err \<Rightarrow>
                    ((FnNil, Some (Wrapped ''could not create webhook worker'' err)), c3)
                | StartError err \<Rightarrow>
                    ((FnNil, Some (Wrapped ''could not start webhook worker'' err)), c3)
                | Started \<Rightarrow>
                    let t = length (workers c3);
                        i = length (monitors c3);
                        c4 = emit (StartWorker opts) (c3\<lparr>workers := workers c3 @ [opts]\<rparr>)
                    in ((FnRun i, None),
                        c4\<lparr>monitors := monitors c4 @ [new_monitor tid w tok [FnTransport t] h]\<rparr>)))"

subsection \<open>Calling release functions\<close>

definition upd_monitor ::
  "nat \<Rightarrow> (monitor \<Rightarrow> monitor) \<Rightarrow> WebhooksController \<Rightarrow> WebhooksController" where
  "upd_monitor i f c =
     (if i < length (monitors c) then c\<lparr>monitors := (monitors c)[i := f (monitors c ! i)]\<rparr>
      else c)"

text \<open>
  \<open>call_fn\<close> calls a \<open>func() error\<close> value. Calling \<open>nil\<close> panics. The closure returned
  by \<open>run\<close> (lines 245-254) cancels its context and calls the functions that the
  variable \<open>cleanups\<close> holds at that moment, returning the first error, wrapped.
  \<open>call_all\<close> is that loop; the closure returned by \<open>Start\<close> runs the same loop with the
  same message over \<open>c.cleanups\<close>.
\<close>

fun call_fn ::
  "env \<Rightarrow> nat \<Rightarrow> fn \<Rightarrow> WebhooksController \<Rightarrow> error option outcome \<times> WebhooksController"
and call_all ::
  "env \<Rightarrow> nat \<Rightarrow> fn list \<Rightarrow> WebhooksController \<Rightarrow> error option outcome \<times> WebhooksController"
where
  "call_fn e fuel FnNil c = (Panics NilFunc, c)"
| "call_fn e fuel (FnTransport t) c = (Return (release e t), emit (Released t) c)"
| "call_fn e 0 (FnRun i) c = (NoResult, c)"
| "call_fn e (Suc fuel) (FnRun i) c =
     (if i < length (monitors c)
      then call_all e fuel (m_cleanups (monitors c ! i))
             (upd_monitor i (\<lambda>m. m\<lparr>ctx_done := True\<rparr>) c)
      else (NoResult, c))"
| "call_all e fuel [] c = (Return None, c)"
| "call_all e fuel (f # fs) c =
     (case call_fn e fuel f c of
        (Return None, c1) \<Rightarrow> call_all e fuel fs c1
      | (Return (Some err), c1) \<Rightarrow>
          (Return (Some (Wrapped ''could not cleanup webhook worker'' err)), c1)
      | (Panics p, c1) \<Rightarrow> (Panics p, c1)
      | (NoResult, c1) \<Rightarrow> (NoResult, c1))"

text \<open>The closure returned by \<open>Start\<close> (lines 51-61).\<close>

definition shutdown ::
  "env \<Rightarrow> nat \<Rightarrow> WebhooksController \<Rightarrow> error option outcome \<times> WebhooksController" where
  "shutdown e fuel c = call_all e fuel (cleanups c) (c\<lparr>start_ctx_done := True\<rparr>)"

text \<open>The loop of lines 211-215: an error is logged and the loop goes on.\<close>

fun cleanup_each ::
  "env \<Rightarrow> nat \<Rightarrow> fn list \<Rightarrow> WebhooksController \<Rightarrow> unit outcome \<times> WebhooksController" where
  "cleanup_each e fuel [] c = (Return (), c)"
| "cleanup_each e fuel (f # fs) c =
     (case call_fn e fuel f c of
        (Return None, c1) \<Rightarrow> cleanup_each e fuel fs c1
      | (Return (Some err), c1) \<Rightarrow> cleanup_each e fuel fs (emit (Log (CouldNotCleanup err)) c1)
      | (Panics p, c1) \<Rightarrow> (Panics p, c1)
      | (NoResult, c1) \<Rightarrow> (NoResult, c1))"

subsection \<open>The monitor goroutine\<close>

definition UpdateWorker_call ::
  "env \<Rightarrow> string \<Rightarrow> string \<Rightarrow> bool \<Rightarrow> WebhooksController \<Rightarrow> WebhooksController" where
  "UpdateWorker_call e tid wid isActive c =
     (let c1 = emit (UpdateWorker tid wid isActive) (c\<lparr>updates := updates c + 1\<rparr>)
      in (case update_worker e (updates c) of
            None \<Rightarrow> c1
          | Some err \<Rightarrow> emit (Log (CouldNotUpdateWorker err)) c1))"

text \<open>
  \<open>on_timer\<close> is the body of \<open>case <-timer.C:\<close> (lines 182-240) for monitor \<open>i\<close>.
  Returning from the goroutine sets \<open>returned\<close> and, by the deferred \<open>timer.Stop()\<close>,
  disarms the timer.
\<close>

definition on_timer ::
  "env \<Rightarrow> nat \<Rightarrow> nat \<Rightarrow> WebhooksController \<Rightarrow> unit outcome \<times> WebhooksController" where
  "on_timer e fuel i c =
     (let m = monitors c ! i; tid = m_tenantId m; w = m_ww m in
      case healthcheck e w c of
        (Inl err, c1) \<Rightarrow>
          let n = healthCheckErrors m + 1;
              c2 = upd_monitor i (\<lambda>m. m\<lparr>healthCheckErrors := n\<rparr>) c1
          in if n > 3
             then (Return (),
                   UpdateWorker_call e tid (ID w) False (emit (Log (MarkingAsInactive (ID w) tid)) c2))
             else (Return (), emit (Log (Retrying (ID w) tid)) c2)
      | (Inr h, c1) \<Rightarrow>
          let wfsHash = hash (Workflows h);
              actionsHash = hash (Actions h);
              c2 = emit (Log (ActionsHash actionsHash (actionsHashLast m)))
                     (emit (Log (WfsHash wfsHash (wfsHashLast m))) c1)
          in if wfsHash \<noteq> wfsHashLast m \<or> actionsHash \<noteq> actionsHashLast m
             then
               (case cleanup_each e fuel (m_cleanups m) (emit (Log (HasChanged (ID w) tid)) c2) of
                  (Return u, c3) \<Rightarrow>
                    (case run e tid w (m_token m) c3 of
                       ((newCleanup, err), c4) \<Rightarrow>
                         let c5 = (case err of
                                     None \<Rightarrow> c4
                                   | Some x \<Rightarrow> emit (Log (CouldNotRestart x)) c4)
                         in (Return (),
                             upd_monitor i
                               (\<lambda>m. m\<lparr>m_cleanups := [newCleanup], returned := True,
                                       timer_armed := False\<rparr>) c5))
                | (Panics p, c3) \<Rightarrow> (Panics p, c3)
                | (NoResult, c3) \<Rightarrow> (NoResult, c3))
             else
               let c3 = upd_monitor i
                          (\<lambda>m. m\<lparr>wfsHashLast := wfsHash, actionsHashLast := actionsHash\<rparr>) c2;
                   c4 = (if healthCheckErrors m > 0 then emit (Log (HealthyAgain (ID w))) c3
                         else c3);
                   c5 = UpdateWorker_call e tid (ID w) True c4
               in (Return (), upd_monitor i (\<lambda>m. m\<lparr>healthCheckErrors := 0\<rparr>) c5))"

text \<open>
  The timer of a monitor is made once by \<open>time.NewTimer(10 * time.Second)\<close> and never
  reset: when its ten seconds have passed it sends one value on \<open>timer.C\<close> and is no longer
  armed. \<open>timer_elapse\<close> is the passing of ten seconds for the timer of monitor \<open>i\<close>.
\<close>

definition timer_elapse :: "nat \<Rightarrow> WebhooksController \<Rightarrow> WebhooksController" where
  "timer_elapse i c =
     (if i < length (monitors c) \<and> timer_armed (monitors c ! i)
      then upd_monitor i (\<lambda>m. m\<lparr>timer_armed := False, timer_C := True\<rparr>) c
      else c)"

text \<open>The two cases of the \<open>select\<close> of lines 178-241. A case can be taken when the
  goroutine has not returned and its channel is ready; otherwise nothing happens.\<close>

definition select_done :: "nat \<Rightarrow> WebhooksController \<Rightarrow> WebhooksController" where
  "select_done i c =
     (if i < length (monitors c) \<and> \<not> returned (monitors c ! i) \<and> ctx_done (monitors c ! i)
      then upd_monitor i (\<lambda>m. m\<lparr>returned := True, timer_armed := False\<rparr>) c
      else c)"

definition select_timer ::
  "env \<Rightarrow> nat \<Rightarrow> nat \<Rightarrow> WebhooksController \<Rightarrow> unit outcome \<times> WebhooksController" where
  "select_timer e fuel i c =
     (if i < length (monitors c) \<and> \<not> returned (monitors c ! i) \<and> timer_C (monitors c ! i)
      then on_timer e fuel i (upd_monitor i (\<lambda>m. m\<lparr>timer_C := False\<rparr>) c)
      else (Return (), c))"

subsection \<open>check and the discovery goroutine\<close>

fun check_workers ::
  "env \<Rightarrow> string \<Rightarrow> string \<Rightarrow> WebhookWorkerModel list \<Rightarrow> WebhooksController
     \<Rightarrow> WebhooksController" where
  "check_workers e tid tok [] c = c"
| "check_workers e tid tok (w # wws) c =
     (case run e tid w tok c of
        ((cleanup, Some err), c1) \<Rightarrow>
          check_workers e tid tok wws (emit (Log (ErrorRunningWebhookWorker err)) c1)
      | ((cleanup, None), c1) \<Rightarrow>
          check_workers e tid tok wws
            (if cleanup \<noteq> FnNil then c1\<lparr>cleanups := cleanups c1 @ [cleanup]\<rparr> else c1))"

fun check_tenants ::
  "env \<Rightarrow> string list \<Rightarrow> WebhooksController \<Rightarrow> error option outcome \<times> WebhooksController" where
  "check_tenants e [] c = (Return None, c)"
| "check_tenants e (tid # tids) c =
     (case generate_tenant_token e tid of
        Inl err \<Rightarrow> (Panics (PanicError (Wrapped ''could not generate default token'' err)), c)
      | Inr tok \<Rightarrow>
          (case list_webhook_workers e tid of
             Inl err \<Rightarrow> (Return (Some (Wrapped ''could not get webhook workers'' err)), c)
           | Inr wws \<Rightarrow> check_tenants e tids (check_workers e tid tok wws c)))"

definition check ::
  "env \<Rightarrow> WebhooksController \<Rightarrow> error option outcome \<times> WebhooksController" where
  "check e c =
     (case list_tenants e of
        Inl err \<Rightarrow> (Return (Some (Wrapped ''could not list tenants'' err)), c)
      | Inr tenants \<Rightarrow> check_tenants e tenants c)"

text \<open>\<open>Start\<close> spawns the discovery goroutine, whose ticker (\<open>time.NewTicker\<close>) sends a
  value every 30 seconds for as long as the goroutine runs.\<close>

definition Start :: "WebhooksController \<Rightarrow> WebhooksController" where
  "Start c = c\<lparr>started := True\<rparr>"

definition scan_tick ::
  "env \<Rightarrow> WebhooksController \<Rightarrow> unit outcome \<times> WebhooksController" where
  "scan_tick e c =
     (if started c \<and> \<not> scanner_returned c
      then (case check e c of
              (Return None, c1) \<Rightarrow> (Return (), c1)
            | (Return (Some err), c1) \<Rightarrow> (Return (), emit (Log (ErrorCheckingWebhooks err)) c1)
            | (Panics p, c1) \<Rightarrow> (Panics p, c1)
            | (NoResult, c1) \<Rightarrow> (NoResult, c1))
      else (Return (), c))"

definition scan_done :: "WebhooksController \<Rightarrow> WebhooksController" where
  "scan_done c =
     (if started c \<and> \<not> scanner_returned c \<and> start_ctx_done c
      then c\<lparr>scanner_returned := True\<rparr> else c)"

subsection \<open>Interleavings\<close>

datatype event =
    ScanTick
  | ScanDone
  | TimerElapse nat
  | MonitorTimer nat
  | MonitorDone nat
  | Shutdown

fun step :: "env \<Rightarrow> nat \<Rightarrow> event \<Rightarrow> WebhooksController \<Rightarrow> unit outcome \<times> WebhooksController" where
  "step e fuel ScanTick c = scan_tick e c"
| "step e fuel ScanDone c = (Return (), scan_done c)"
| "step e fuel (TimerElapse i) c = (Return (), timer_elapse i c)"
| "step e fuel (MonitorTimer i) c = select_timer e fuel i c"
| "step e fuel (MonitorDone i) c = (Return (), select_done i c)"
| "step e fuel Shutdown c =
     (case shutdown e fuel c of
        (Return r, c1) \<Rightarrow> (Return (), c1)
      | (Panics p, c1) \<Rightarrow> (Panics p, c1)
      | (NoResult, c1) \<Rightarrow> (NoResult, c1))"

fun exec :: "env \<Rightarrow> nat \<Rightarrow> event list \<Rightarrow> WebhooksController \<Rightarrow> unit outcome \<times> WebhooksController" where
  "exec e fuel [] c = (Return (), c)"
| "exec e fuel (ev # evs) c =
     (case step e fuel ev c of
        (Return u, c1) \<Rightarrow> exec e fuel evs c1
      | (Panics p, c1) \<Rightarrow> (Panics p, c1)
      | (NoResult, c1) \<Rightarrow> (NoResult, c1))"

subsection \<open>Reading the trace\<close>

definition probes :: "WebhooksController \<Rightarrow> string list" where
  "probes c = concat (map (\<lambda>x. case x of Probe u \<Rightarrow> [u] | _ \<Rightarrow> []) (trace c))"

definition releases :: "WebhooksController \<Rightarrow> nat list" where
  "releases c = concat (map (\<lambda>x. case x of Released t \<Rightarrow> [t] | _ \<Rightarrow> []) (trace c))"

definition writes :: "WebhooksController \<Rightarrow> bool list" where
  "writes c = concat (map (\<lambda>x. case x of UpdateWorker tid wid a \<Rightarrow> [a] | _ \<Rightarrow> []) (trace c))"

subsection \<open>Probes, closures and identities\<close>

text \<open>The manifest the \<open>n\<close>-th health check yields for a URL, if it succeeds:
  \<open>healthcheck\<close> returns a response exactly then (lemmas \<open>healthcheck_Some\<close> and
  \<open>healthcheck_None\<close>).\<close>

definition manifest_of :: "env \<Rightarrow> nat \<Rightarrow> string \<Rightarrow> HealthCheckResponse option" where
  "manifest_of e n u =
     (case http_get e n u of
        Response code b \<Rightarrow>
          (if code = 200 then (case b of Manifest res \<Rightarrow> Some res | _ \<Rightarrow> None) else None)
      | _ \<Rightarrow> None)"

text \<open>A monitor that has returned, with the chain its closure will call.\<close>

definition frozen :: "nat \<Rightarrow> fn list \<Rightarrow> WebhooksController \<Rightarrow> bool" where
  "frozen i cs c =
     (i < length (monitors c) \<and> returned (monitors c ! i) \<and> m_cleanups (monitors c ! i) = cs)"

text \<open>The identities of the transports started so far and of the monitors spawned so
  far, in order of creation (a released transport and a returned monitor stay listed).\<close>

definition worker_ids :: "WebhooksController \<Rightarrow> string list" where
  "worker_ids c = map opt_ID (workers c)"

definition monitor_ids :: "WebhooksController \<Rightarrow> string list" where
  "monitor_ids c = map (\<lambda>m. ID (m_ww m)) (monitors c)"

text \<open>No identity has two transports or two monitors, and every identity that has one
  is registered.\<close>

definition one_per_id :: "WebhooksController \<Rightarrow> bool" where
  "one_per_id c =
     (distinct (worker_ids c) \<and> distinct (monitor_ids c)
      \<and> list_all (\<lambda>x. registeredWorkerIds c x \<noteq> None) (worker_ids c @ monitor_ids c))"

subsection \<open>What shutdown and check amount to\<close>

text \<open>The transports released when release functions are called in order and the
  first error stops the calls, and the error reported then: the transport's error,
  wrapped once by the closure of \<open>run\<close> and once by the closure of \<open>Start\<close>.\<close>

fun until_error :: "env \<Rightarrow> nat list \<Rightarrow> nat list" where
  "until_error e [] = []"
| "until_error e (t # ts) = (if release e t = None then t # until_error e ts else [t])"

fun first_error :: "env \<Rightarrow> nat list \<Rightarrow> error option" where
  "first_error e [] = None"
| "first_error e (t # ts) =
     (case release e t of
        None \<Rightarrow> first_error e ts
      | Some err \<Rightarrow>
          Some (Wrapped ''could not cleanup webhook worker''
                 (Wrapped ''could not cleanup webhook worker'' err)))"

text \<open>The tenants one cycle of \<open>check\<close> scans, with their workers: those before the
  first tenant whose token or worker listing fails.\<close>

fun scanned :: "env \<Rightarrow> string list \<Rightarrow> (string \<times> WebhookWorkerModel list) list" where
  "scanned e [] = []"
| "scanned e (tid # tids) =
     (case generate_tenant_token e tid of
        Inl err \<Rightarrow> []
      | Inr tok \<Rightarrow>
          (case list_webhook_workers e tid of
             Inl err \<Rightarrow> []
           | Inr wws \<Rightarrow> (tid, wws) # scanned e tids))"

fun scan_result :: "env \<Rightarrow> string list \<Rightarrow> error option outcome" where
  "scan_result e [] = Return None"
| "scan_result e (tid # tids) =
     (case generate_tenant_token e tid of
        Inl err \<Rightarrow> Panics (PanicError (Wrapped ''could not generate default token'' err))
      | Inr tok \<Rightarrow>
          (case list_webhook_workers e tid of
             Inl err \<Rightarrow> Return (Some (Wrapped ''could not get webhook workers'' err))
           | Inr wws \<Rightarrow> scan_result e tids))"

subsection \<open>Sample workers and environments\<close>

definition w1 :: WebhookWorkerModel where
  "w1 = \<lparr>ID = ''w1'', URL = ''http://w1/health'', Secret = ''s1''\<rparr>"

definition w2 :: WebhookWorkerModel where
  "w2 = \<lparr>ID = ''w2'', URL = ''http://w2/health'', Secret = ''s2''\<rparr>"

definition w3 :: WebhookWorkerModel where
  "w3 = \<lparr>ID = ''w3'', URL = ''http://w3/health'', Secret = ''s3''\<rparr>"

definition manifest :: "string list \<Rightarrow> http_reply" where
  "manifest as = Response 200 (Manifest \<lparr>Actions = as, Workflows = [''wf'']\<rparr>)"

text \<open>One tenant with one worker; every probe answers with the actions \<open>b, a\<close>;
  every collaborator succeeds.\<close>

definition base_env :: env where
  "base_env =
     \<lparr>http_get = (\<lambda>n u. manifest [''b'', ''a'']),
      new_worker = (\<lambda>n opts. Started),
      release = (\<lambda>t. None),
      update_worker = (\<lambda>n. None),
      list_tenants = Inr [''t1''],
      generate_tenant_token = (\<lambda>tid. Inr (''token-'' @ tid)),
      list_webhook_workers = (\<lambda>tid. if tid = ''t1'' then Inr [w1] else Inr [])\<rparr>"

text \<open>The actions change from \<open>b, a\<close> to \<open>a, b, c\<close> after the startup probe.\<close>

definition changing_env :: env where
  "changing_env =
     base_env\<lparr>http_get :=
       (\<lambda>n u. if n = 0 then manifest [''b'', ''a''] else manifest [''a'', ''b'', ''c''])\<rparr>"

text \<open>Every probe after the startup probe fails.\<close>

definition failing_env :: env where
  "failing_env =
     base_env\<lparr>http_get :=
       (\<lambda>n u. if n = 0 then manifest [''b'', ''a''] else DoError (External ''refused''))\<rparr>"



text \<open>One tenant with two workers; the first worker reports one more action after
  discovery.\<close>

definition two_workers_changing_env :: env where
  "two_workers_changing_env =
     base_env\<lparr>http_get :=
                (\<lambda>n u. if n < 2 then manifest [''b'', ''a''] else manifest [''a'', ''b'', ''c'']),
              list_webhook_workers := (\<lambda>tid. Inr [w1, w2])\<rparr>"

text \<open>One tenant with two workers; releasing the first transport fails.\<close>

definition release_fails_env :: env where
  "release_fails_env =
     base_env\<lparr>release := (\<lambda>t. if t = 0 then Some (External ''stop failed'') else None),
              list_webhook_workers := (\<lambda>tid. Inr [w1, w2])\<rparr>"

text \<open>One tenant with three workers; releasing the second transport fails.\<close>

definition second_release_fails_env :: env where
  "second_release_fails_env =
     base_env\<lparr>release := (\<lambda>t. if t = 1 then Some (External ''stop failed'') else None),
              list_webhook_workers := (\<lambda>tid. Inr [w1, w2, w3])\<rparr>"

text \<open>Two tenants; listing the workers of the first fails.\<close>

definition listing_fails_env :: env where
  "listing_fails_env =
     base_env\<lparr>list_tenants := Inr [''t1'', ''t2''],
              list_webhook_workers :=
                (\<lambda>tid. if tid = ''t1'' then Inl (External ''db down'') else Inr [w2])\<rparr>"

text \<open>Three tenants: the first has an unreachable worker and a healthy one, the
  worker listing of the second fails, the third has one worker.\<close>

definition mixed_env :: env where
  "mixed_env =
     base_env\<lparr>http_get :=
                (\<lambda>n u. if u = URL w1 then DoError (External ''refused'') else manifest [''a'']),
              list_tenants := Inr [''t1'', ''t2'', ''t3''],
              list_webhook_workers :=
                (\<lambda>tid. if tid = ''t1'' then Inr [w1, w2]
                        else if tid = ''t2'' then Inl (External ''db down'')
                        else Inr [w3])\<rparr>"

text \<open>The controller after \<open>New\<close>, \<open>Start\<close> and the first discovery cycle.\<close>

definition discovered :: "env \<Rightarrow> WebhooksController" where
  "discovered e = snd (scan_tick e (Start New))"

section \<open>Auxiliary facts\<close>

subsection \<open>Fields under the state updates\<close>

lemma emit_fields [simp]:
  "trace (emit x c) = trace c @ [x]"
  "monitors (emit x c) = monitors c"
  "workers (emit x c) = workers c"
  "cleanups (emit x c) = cleanups c"
  "registeredWorkerIds (emit x c) = registeredWorkerIds c"
  "gets (emit x c) = gets c"
  "updates (emit x c) = updates c"
  "worker_calls (emit x c) = worker_calls c"
  "started (emit x c) = started c"
  "start_ctx_done (emit x c) = start_ctx_done c"
  "scanner_returned (emit x c) = scanner_returned c"
  by (simp_all add: emit_def)

lemma upd_monitor_fields [simp]:
  "trace (upd_monitor i f c) = trace c"
  "workers (upd_monitor i f c) = workers c"
  "cleanups (upd_monitor i f c) = cleanups c"
  "registeredWorkerIds (upd_monitor i f c) = registeredWorkerIds c"
  "gets (upd_monitor i f c) = gets c"
  "updates (upd_monitor i f c) = updates c"
  "worker_calls (upd_monitor i f c) = worker_calls c"
  "started (upd_monitor i f c) = started c"
  "start_ctx_done (upd_monitor i f c) = start_ctx_done c"
  "scanner_returned (upd_monitor i f c) = scanner_returned c"
  "length (monitors (upd_monitor i f c)) = length (monitors c)"
  by (simp_all add: upd_monitor_def)

lemma monitors_upd_monitor:
  "i < length (monitors c) \<Longrightarrow>
   monitors (upd_monitor i f c) = (monitors c)[i := f (monitors c ! i)]"
  by (simp add: upd_monitor_def)

lemma nth_upd_monitor:
  "j < length (monitors c) \<Longrightarrow>
   monitors (upd_monitor i f c) ! j = (if j = i then f (monitors c ! j) else monitors c ! j)"
  by (simp add: upd_monitor_def)

lemma UpdateWorker_call_fields [simp]:
  "monitors (UpdateWorker_call e tid wid a c) = monitors c"
  "workers (UpdateWorker_call e tid wid a c) = workers c"
  "cleanups (UpdateWorker_call e tid wid a c) = cleanups c"
  "registeredWorkerIds (UpdateWorker_call e tid wid a c) = registeredWorkerIds c"
  "gets (UpdateWorker_call e tid wid a c) = gets c"
  "worker_calls (UpdateWorker_call e tid wid a c) = worker_calls c"
  "updates (UpdateWorker_call e tid wid a c) = updates c + 1"
  "started (UpdateWorker_call e tid wid a c) = started c"
  "start_ctx_done (UpdateWorker_call e tid wid a c) = start_ctx_done c"
  "scanner_returned (UpdateWorker_call e tid wid a c) = scanner_returned c"
  by (simp_all add: UpdateWorker_call_def Let_def split: option.splits)

lemma trace_UpdateWorker_call:
  "trace (UpdateWorker_call e tid wid a c) =
     trace c @ UpdateWorker tid wid a #
       (case update_worker e (updates c) of
          None \<Rightarrow> []
        | Some err \<Rightarrow> [Log (CouldNotUpdateWorker err)])"
  by (simp add: UpdateWorker_call_def Let_def split: option.splits)

subsection \<open>Reading an extended trace\<close>

lemma writes_append:
  "trace c' = trace c @ xs \<Longrightarrow>
   writes c' = writes c @ concat (map (\<lambda>x. case x of UpdateWorker tid wid a \<Rightarrow> [a] | _ \<Rightarrow> []) xs)"
  by (simp add: writes_def)

lemma releases_append:
  "trace c' = trace c @ xs \<Longrightarrow>
   releases c' = releases c @ concat (map (\<lambda>x. case x of Released t \<Rightarrow> [t] | _ \<Rightarrow> []) xs)"
  by (simp add: releases_def)

lemma probes_append:
  "trace c' = trace c @ xs \<Longrightarrow>
   probes c' = probes c @ concat (map (\<lambda>x. case x of Probe u \<Rightarrow> [u] | _ \<Rightarrow> []) xs)"
  by (simp add: probes_def)

lemma same_trace:
  "trace c' = trace c \<Longrightarrow> writes c' = writes c \<and> releases c' = releases c \<and> probes c' = probes c"
  by (simp add: writes_def releases_def probes_def)

lemma writes_emit:
  "writes (emit x c) = writes c @ (case x of UpdateWorker tid wid a \<Rightarrow> [a] | _ \<Rightarrow> [])"
  by (simp add: writes_def)

lemma writes_upd_monitor [simp]: "writes (upd_monitor i f c) = writes c"
  by (simp add: writes_def)

lemma writes_gets [simp]: "writes (c\<lparr>gets := g\<rparr>) = writes c"
  by (simp add: writes_def)

lemma writes_UpdateWorker_call [simp]:
  "writes (UpdateWorker_call e tid wid a c) = writes c @ [a]"
  by (cases "update_worker e (updates c)") (simp_all add: writes_def trace_UpdateWorker_call)

subsection \<open>healthcheck\<close>

lemma snd_healthcheck:
  "snd (healthcheck e w c) = emit (Probe (URL w)) (c\<lparr>gets := gets c + 1\<rparr>)"
  by (simp add: healthcheck_def)

lemma healthcheck_None:
  "manifest_of e (gets c) (URL w) = None \<Longrightarrow>
   \<exists>err. healthcheck e w c = (Inl err, emit (Probe (URL w)) (c\<lparr>gets := gets c + 1\<rparr>))"
  by (auto simp: healthcheck_def manifest_of_def split: http_reply.splits body.splits if_splits)

lemma healthcheck_Some:
  "manifest_of e (gets c) (URL w) = Some h \<Longrightarrow>
   healthcheck e w c = (Inr h, emit (Probe (URL w)) (c\<lparr>gets := gets c + 1\<rparr>))"
  by (auto simp: healthcheck_def manifest_of_def split: http_reply.splits body.splits if_splits)

lemma healthcheck_cases:
  obtains err where "healthcheck e w c = (Inl err, emit (Probe (URL w)) (c\<lparr>gets := gets c + 1\<rparr>))"
  | h where "healthcheck e w c = (Inr h, emit (Probe (URL w)) (c\<lparr>gets := gets c + 1\<rparr>))"
  by (cases "fst (healthcheck e w c)") (auto simp: prod_eq_iff snd_healthcheck)

subsection \<open>run\<close>

lemma run_registered:
  assumes "registeredWorkerIds c (ID w) \<noteq> None"
  shows "fst (fst (run e tid w tok c)) = FnNil
     \<and> snd (run e tid w tok c) = emit (Probe (URL w)) (c\<lparr>gets := gets c + 1\<rparr>)"
proof (cases rule: healthcheck_cases [of e w c])
  case (1 err)
  then show ?thesis by (simp add: run_def)
next
  case (2 h)
  then show ?thesis using assms by (simp add: run_def)
qed

lemma run_shape:
  "\<exists>xs ms. trace (snd (run e tid w tok c)) = trace c @ Probe (URL w) # xs
     \<and> (\<forall>x\<in>set xs. \<exists>opts. x = StartWorker opts)
     \<and> monitors (snd (run e tid w tok c)) = monitors c @ ms
     \<and> cleanups (snd (run e tid w tok c)) = cleanups c
     \<and> started (snd (run e tid w tok c)) = started c
     \<and> start_ctx_done (snd (run e tid w tok c)) = start_ctx_done c
     \<and> scanner_returned (snd (run e tid w tok c)) = scanner_returned c"
proof (cases rule: healthcheck_cases [of e w c])
  case (1 err)
  then show ?thesis by (simp add: run_def)
next
  case (2 h)
  then show ?thesis
    by (simp add: run_def Let_def split: worker_reply.splits)
qed

lemma probes_run: "probes (snd (run e tid w tok c)) = probes c @ [URL w]"
proof -
  obtain xs where t: "trace (snd (run e tid w tok c)) = trace c @ Probe (URL w) # xs"
    and s: "\<forall>x\<in>set xs. \<exists>opts. x = StartWorker opts"
    using run_shape [of e tid w tok c] by blast
  have "concat (map (\<lambda>x. case x of Probe u \<Rightarrow> [u] | _ \<Rightarrow> []) xs) = []"
    using s by (induction xs) auto
  then show ?thesis
    using probes_append [OF t] by simp
qed

lemma frozen_append: "frozen i cs c \<Longrightarrow> monitors c' = monitors c @ ms \<Longrightarrow> frozen i cs c'"
  by (simp add: frozen_def nth_append)

lemma frozen_run: "frozen i cs c \<Longrightarrow> frozen i cs (snd (run e tid w tok c))"
  using run_shape [of e tid w tok c] frozen_append by blast

subsection \<open>One tick of a monitor\<close>

lemma on_timer_failure:
  assumes "i < length (monitors c)"
    and "manifest_of e (gets c) (URL (m_ww (monitors c ! i))) = None"
  shows "fst (on_timer e fuel i c) = Return ()
     \<and> monitors (snd (on_timer e fuel i c)) =
         (monitors c)[i := (monitors c ! i)\<lparr>healthCheckErrors := healthCheckErrors (monitors c ! i) + 1\<rparr>]
     \<and> gets (snd (on_timer e fuel i c)) = gets c + 1
     \<and> writes (snd (on_timer e fuel i c)) =
         writes c @ (if healthCheckErrors (monitors c ! i) + 1 > 3 then [False] else [])
     \<and> registeredWorkerIds (snd (on_timer e fuel i c)) = registeredWorkerIds c"
proof -
  obtain err where h: "healthcheck e (m_ww (monitors c ! i)) c =
      (Inl err, emit (Probe (URL (m_ww (monitors c ! i)))) (c\<lparr>gets := gets c + 1\<rparr>))"
    using healthcheck_None [OF assms(2)] by blast
  show ?thesis
    using assms(1)
    by (simp add: on_timer_def Let_def h monitors_upd_monitor writes_emit)
qed

lemma on_timer_healthy:
  assumes "i < length (monitors c)"
    and "manifest_of e (gets c) (URL (m_ww (monitors c ! i))) = Some h"
    and "hash (Workflows h) = wfsHashLast (monitors c ! i)"
    and "hash (Actions h) = actionsHashLast (monitors c ! i)"
  shows "fst (on_timer e fuel i c) = Return ()
     \<and> monitors (snd (on_timer e fuel i c)) =
         (monitors c)[i := (monitors c ! i)\<lparr>healthCheckErrors := 0\<rparr>]
     \<and> gets (snd (on_timer e fuel i c)) = gets c + 1
     \<and> trace (snd (on_timer e fuel i c)) =
         trace c @
         [Probe (URL (m_ww (monitors c ! i))),
          Log (WfsHash (hash (Workflows h)) (wfsHashLast (monitors c ! i))),
          Log (ActionsHash (hash (Actions h)) (actionsHashLast (monitors c ! i)))] @
         (if healthCheckErrors (monitors c ! i) > 0
          then [Log (HealthyAgain (ID (m_ww (monitors c ! i))))] else []) @
         UpdateWorker (m_tenantId (monitors c ! i)) (ID (m_ww (monitors c ! i))) True #
         (case update_worker e (updates c) of
            None \<Rightarrow> []
          | Some err \<Rightarrow> [Log (CouldNotUpdateWorker err)])"
  using assms(1,3,4)
  by (simp add: on_timer_def Let_def healthcheck_Some [OF assms(2)] monitors_upd_monitor
        trace_UpdateWorker_call)

subsection \<open>A returned monitor keeps its chain\<close>

lemma frozen_emit [simp]: "frozen i cs (emit x c) = frozen i cs c"
  by (simp add: frozen_def)

lemma frozen_upd_monitor:
  assumes "frozen i cs c"
    and "j = i \<Longrightarrow> returned (f (monitors c ! i)) \<and> m_cleanups (f (monitors c ! i)) = cs"
  shows "frozen i cs (upd_monitor j f c)"
  using assms by (auto simp: frozen_def nth_upd_monitor)

lemma frozen_UpdateWorker_call [simp]:
  "frozen i cs (UpdateWorker_call e tid wid a c) = frozen i cs c"
  by (simp add: frozen_def)

lemma frozen_call:
  "frozen i cs c \<Longrightarrow> frozen i cs (snd (call_fn e fuel f c))"
  "frozen i cs c \<Longrightarrow> frozen i cs (snd (call_all e fuel fs c))"
proof (induction e fuel f c and e fuel fs c rule: call_fn_call_all.induct)
  case (1 e fuel c)
  then show ?case by simp
next
  case (2 e fuel t c)
  then show ?case by simp
next
  case (3 e i c)
  then show ?case by simp
next
  case (4 e fuel j c)
  show ?case
  proof (cases "j < length (monitors c)")
    case True
    have "frozen i cs (upd_monitor j (\<lambda>m. m\<lparr>ctx_done := True\<rparr>) c)"
      using "4.prems" by (intro frozen_upd_monitor) (auto simp: frozen_def)
    then show ?thesis
      using True "4.IH" by simp
  next
    case False
    then show ?thesis using "4.prems" by simp
  qed
next
  case (5 e fuel c)
  then show ?case by simp
next
  case (6 e fuel f fs c)
  obtain r c1 where r: "call_fn e fuel f c = (r, c1)"
    by (cases "call_fn e fuel f c")
  have f1: "frozen i cs c1"
    using "6.IH"(1) "6.prems" r by simp
  show ?case
  proof (cases r)
    case (Return x)
    show ?thesis
    proof (cases x)
      case None
      then show ?thesis
        using "6.IH"(2) [OF r [symmetric] Return None f1] r Return by simp
    next
      case (Some err)
      then show ?thesis using r Return f1 by simp
    qed
  next
    case (Panics p)
    then show ?thesis using r f1 by simp
  next
    case NoResult
    then show ?thesis using r f1 by simp
  qed
qed

lemma frozen_cleanup_each:
  "frozen i cs c \<Longrightarrow> frozen i cs (snd (cleanup_each e fuel fs c))"
proof (induction fs arbitrary: c)
  case Nil
  then show ?case by simp
next
  case (Cons f fs)
  obtain r c1 where r: "call_fn e fuel f c = (r, c1)"
    by (cases "call_fn e fuel f c")
  have f1: "frozen i cs c1"
    using frozen_call(1) [OF Cons.prems, of e fuel f] r by simp
  show ?case
  proof (cases r)
    case (Return x)
    then show ?thesis
      using r f1 Cons.IH by (cases x) simp_all
  next
    case (Panics p)
    then show ?thesis using r f1 by simp
  next
    case NoResult
    then show ?thesis using r f1 by simp
  qed
qed

lemma frozen_Nil_panics:
  "frozen i [FnNil] c \<Longrightarrow>
   call_fn e (Suc k) (FnRun i) c = (Panics NilFunc, upd_monitor i (\<lambda>m. m\<lparr>ctx_done := True\<rparr>) c)"
  by (simp add: frozen_def nth_upd_monitor)

lemma frozen_on_timer:
  assumes "frozen i cs c" and "j \<noteq> i"
  shows "frozen i cs (snd (on_timer e fuel j c))"
proof (cases rule: healthcheck_cases [of e "m_ww (monitors c ! j)" c])
  case (1 err)
  have "frozen i cs (upd_monitor j f (emit x (c\<lparr>gets := g\<rparr>)))" for f x g
    using assms by (intro frozen_upd_monitor) (simp_all add: frozen_def)
  then show ?thesis
    using 1 by (simp add: on_timer_def Let_def)
next
  case (2 h)
  let ?m = "monitors c ! j"
  let ?c2 = "emit (Log (ActionsHash (hash (Actions h)) (actionsHashLast ?m)))
               (emit (Log (WfsHash (hash (Workflows h)) (wfsHashLast ?m)))
                 (emit (Probe (URL (m_ww ?m))) (c\<lparr>gets := gets c + 1\<rparr>)))"
  have f2: "frozen i cs ?c2"
    using assms(1) by (simp add: frozen_def)
  show ?thesis
  proof (cases "hash (Workflows h) \<noteq> wfsHashLast ?m \<or> hash (Actions h) \<noteq> actionsHashLast ?m")
    case True
    let ?r = "cleanup_each e fuel (m_cleanups ?m) (emit (Log (HasChanged (ID (m_ww ?m)) (m_tenantId ?m))) ?c2)"
    obtain r c3 where r: "?r = (r, c3)"
      by (cases ?r)
    have f3: "frozen i cs c3"
      using frozen_cleanup_each [of i cs "emit (Log (HasChanged (ID (m_ww ?m)) (m_tenantId ?m))) ?c2" e fuel "m_cleanups ?m"]
        f2 r by simp
    show ?thesis
    proof (cases r)
      case (Return u)
      let ?q = "run e (m_tenantId ?m) (m_ww ?m) (m_token ?m) c3"
      obtain nc err c4 where q: "?q = ((nc, err), c4)"
        by (cases ?q) auto
      have f4: "frozen i cs c4"
        using frozen_run [OF f3, of e "m_tenantId ?m" "m_ww ?m" "m_token ?m"] q by simp
      have f5: "frozen i cs (case err of None \<Rightarrow> c4 | Some x \<Rightarrow> emit (Log (CouldNotRestart x)) c4)"
        using f4 by (cases err) simp_all
      have "frozen i cs (upd_monitor j f (case err of None \<Rightarrow> c4 | Some x \<Rightarrow> emit (Log (CouldNotRestart x)) c4))" for f
        using f5 assms(2) by (intro frozen_upd_monitor) simp_all
      then show ?thesis
        using 2 True r Return q by (simp add: on_timer_def Let_def)
    next
      case (Panics p)
      then show ?thesis
        using 2 True r f3 by (simp add: on_timer_def Let_def)
    next
      case NoResult
      then show ?thesis
        using 2 True r f3 by (simp add: on_timer_def Let_def)
    qed
  next
    case False
    have a: "frozen i cs (upd_monitor j f ?c2)" for f
      using f2 assms(2) by (intro frozen_upd_monitor) simp_all
    have b: "frozen i cs (upd_monitor j g (UpdateWorker_call e tid wid a c'))" if "frozen i cs c'" for g tid wid a c'
      using that assms(2) by (intro frozen_upd_monitor) simp_all
    show ?thesis
      using 2 False a by (simp add: on_timer_def Let_def b)
  qed
qed

lemma frozen_select_timer:
  assumes "frozen i cs c"
  shows "frozen i cs (snd (select_timer e fuel j c))"
proof (cases "j < length (monitors c) \<and> \<not> returned (monitors c ! j) \<and> timer_C (monitors c ! j)")
  case True
  then have ne: "j \<noteq> i"
    using assms by (auto simp: frozen_def)
  have "frozen i cs (upd_monitor j (\<lambda>m. m\<lparr>timer_C := False\<rparr>) c)"
    using assms ne by (intro frozen_upd_monitor) simp_all
  then show ?thesis
    using True frozen_on_timer [OF _ ne] by (simp add: select_timer_def)
next
  case False
  then show ?thesis using assms by (auto simp: select_timer_def)
qed

lemma frozen_select_done: "frozen i cs c \<Longrightarrow> frozen i cs (select_done j c)"
  by (auto simp: select_done_def frozen_def nth_upd_monitor)

lemma frozen_timer_elapse: "frozen i cs c \<Longrightarrow> frozen i cs (timer_elapse j c)"
  by (auto simp: timer_elapse_def frozen_def nth_upd_monitor)

lemma frozen_check_workers:
  "frozen i cs c \<Longrightarrow> frozen i cs (check_workers e tid tok wws c)"
proof (induction wws arbitrary: c)
  case Nil
  then show ?case by simp
next
  case (Cons w wws)
  obtain f err c1 where r: "run e tid w tok c = ((f, err), c1)"
    by (cases "run e tid w tok c") auto
  have f1: "frozen i cs c1"
    using frozen_run [OF Cons.prems, of e tid w tok] r by simp
  have f2: "frozen i cs (c1\<lparr>cleanups := xs\<rparr>)" for xs
    using f1 by (simp add: frozen_def)
  show ?case
    using r f1 f2 Cons.IH by (cases err) simp_all
qed

lemma frozen_check_tenants:
  "frozen i cs c \<Longrightarrow> frozen i cs (snd (check_tenants e tids c))"
proof (induction tids arbitrary: c)
  case Nil
  then show ?case by simp
next
  case (Cons tid tids)
  then show ?case
    by (auto simp: frozen_check_workers split: sum.splits)
qed

lemma frozen_check: "frozen i cs c \<Longrightarrow> frozen i cs (snd (check e c))"
  by (auto simp: check_def frozen_check_tenants split: sum.splits)

lemma frozen_scan_tick: "frozen i cs c \<Longrightarrow> frozen i cs (snd (scan_tick e c))"
  using frozen_check [of i cs c e]
  by (auto simp: scan_tick_def split: prod.splits outcome.splits option.splits)

lemma frozen_scan_done: "frozen i cs c \<Longrightarrow> frozen i cs (scan_done c)"
  by (simp add: scan_done_def frozen_def)

lemma frozen_shutdown: "frozen i cs c \<Longrightarrow> frozen i cs (snd (shutdown e fuel c))"
  unfolding shutdown_def
  by (rule frozen_call(2)) (simp add: frozen_def)

lemma frozen_step: "frozen i cs c \<Longrightarrow> frozen i cs (snd (step e fuel ev c))"
proof (cases ev)
  case Shutdown
  assume "frozen i cs c"
  then show ?thesis
    using frozen_shutdown [of i cs c e fuel] Shutdown
    by (auto split: prod.splits outcome.splits)
qed (simp_all add: frozen_scan_tick frozen_scan_done frozen_timer_elapse frozen_select_timer
       frozen_select_done)

lemma frozen_exec: "frozen i cs c \<Longrightarrow> frozen i cs (snd (exec e fuel evs c))"
proof (induction evs arbitrary: c)
  case Nil
  then show ?case by simp
next
  case (Cons ev evs)
  obtain r c1 where r: "step e fuel ev c = (r, c1)"
    by (cases "step e fuel ev c")
  have "frozen i cs c1"
    using frozen_step [OF Cons.prems, of e fuel ev] r by simp
  then show ?case
    using r Cons.IH by (cases r) simp_all
qed

lemma call_all_panics_first:
  "fst (call_fn e fuel f c) = Panics p \<Longrightarrow> fst (call_all e fuel (f # fs) c) = Panics p"
  by (cases "call_fn e fuel f c") (simp del: call_fn.simps)

subsection \<open>The capability-change branch\<close>

lemma on_timer_changed_eq:
  assumes "healthcheck e (m_ww (monitors c ! i)) c = (Inr h, c1)"
    and "hash (Workflows h) \<noteq> wfsHashLast (monitors c ! i)
         \<or> hash (Actions h) \<noteq> actionsHashLast (monitors c ! i)"
    and "cleanup_each e fuel (m_cleanups (monitors c ! i))
           (emit (Log (HasChanged (ID (m_ww (monitors c ! i))) (m_tenantId (monitors c ! i))))
             (emit (Log (ActionsHash (hash (Actions h)) (actionsHashLast (monitors c ! i))))
               (emit (Log (WfsHash (hash (Workflows h)) (wfsHashLast (monitors c ! i)))) c1)))
         = (Return u, c3)"
    and "run e (m_tenantId (monitors c ! i)) (m_ww (monitors c ! i)) (m_token (monitors c ! i)) c3
         = ((nc, err), c4)"
  shows "on_timer e fuel i c =
     (Return (),
      upd_monitor i (\<lambda>m. m\<lparr>m_cleanups := [nc], returned := True, timer_armed := False\<rparr>)
        (case err of None \<Rightarrow> c4 | Some x \<Rightarrow> emit (Log (CouldNotRestart x)) c4))"
  using assms by (simp add: on_timer_def Let_def)

lemma on_timer_changed:
  assumes len: "i < length (monitors c)"
    and ok: "manifest_of e (gets c) (URL (m_ww (monitors c ! i))) = Some h"
    and ch: "hash (Workflows h) \<noteq> wfsHashLast (monitors c ! i)
             \<or> hash (Actions h) \<noteq> actionsHashLast (monitors c ! i)"
    and chain: "m_cleanups (monitors c ! i) = [FnTransport t]"
    and reg: "registeredWorkerIds c (ID (m_ww (monitors c ! i))) \<noteq> None"
  shows "fst (on_timer e fuel i c) = Return ()
     \<and> monitors (snd (on_timer e fuel i c)) =
         (monitors c)[i := (monitors c ! i)\<lparr>m_cleanups := [FnNil], returned := True,
                                            timer_armed := False\<rparr>]
     \<and> workers (snd (on_timer e fuel i c)) = workers c
     \<and> cleanups (snd (on_timer e fuel i c)) = cleanups c
     \<and> registeredWorkerIds (snd (on_timer e fuel i c)) = registeredWorkerIds c
     \<and> releases (snd (on_timer e fuel i c)) = releases c @ [t]
     \<and> writes (snd (on_timer e fuel i c)) = writes c
     \<and> probes (snd (on_timer e fuel i c)) =
         probes c @ [URL (m_ww (monitors c ! i)), URL (m_ww (monitors c ! i))]"
proof -
  let ?m = "monitors c ! i"
  define c1 where "c1 = emit (Probe (URL (m_ww ?m))) (c\<lparr>gets := gets c + 1\<rparr>)"
  define c2 where "c2 = emit (Log (HasChanged (ID (m_ww ?m)) (m_tenantId ?m)))
              (emit (Log (ActionsHash (hash (Actions h)) (actionsHashLast ?m)))
               (emit (Log (WfsHash (hash (Workflows h)) (wfsHashLast ?m))) c1))"
  define c3 where "c3 = (case release e t of
               None \<Rightarrow> emit (Released t) c2
             | Some err \<Rightarrow> emit (Log (CouldNotCleanup err)) (emit (Released t) c2))"
  have hc: "healthcheck e (m_ww ?m) c = (Inr h, c1)"
    using healthcheck_Some [OF ok] by (simp add: c1_def)
  have ce: "cleanup_each e fuel (m_cleanups ?m) c2 = (Return (), c3)"
    by (simp add: chain c3_def split: option.splits)
  have reg3: "registeredWorkerIds c3 (ID (m_ww ?m)) \<noteq> None"
    using reg by (simp add: c3_def c2_def c1_def split: option.splits)
  let ?q = "run e (m_tenantId ?m) (m_ww ?m) (m_token ?m) c3"
  obtain nc err c4 where q: "?q = ((nc, err), c4)"
    by (cases ?q) auto
  have nc: "nc = FnNil" and c4: "c4 = emit (Probe (URL (m_ww ?m))) (c3\<lparr>gets := gets c3 + 1\<rparr>)"
    using run_registered [OF reg3, of e "m_tenantId ?m" "m_token ?m"] q by simp_all
  define c5 where "c5 = (case err of None \<Rightarrow> c4 | Some x \<Rightarrow> emit (Log (CouldNotRestart x)) c4)"
  have res: "on_timer e fuel i c =
      (Return (), upd_monitor i (\<lambda>m. m\<lparr>m_cleanups := [FnNil], returned := True, timer_armed := False\<rparr>) c5)"
    using on_timer_changed_eq [OF hc ch ce [unfolded c2_def] q] by (simp add: nc c5_def)
  have tr3: "trace c3 = trace c @
      [Probe (URL (m_ww ?m)), Log (WfsHash (hash (Workflows h)) (wfsHashLast ?m)),
       Log (ActionsHash (hash (Actions h)) (actionsHashLast ?m)),
       Log (HasChanged (ID (m_ww ?m)) (m_tenantId ?m)), Released t] @
      (case release e t of None \<Rightarrow> [] | Some x \<Rightarrow> [Log (CouldNotCleanup x)])"
    by (simp add: c3_def c2_def c1_def split: option.splits)
  have tr5: "trace c5 = trace c3 @ Probe (URL (m_ww ?m)) #
      (case err of None \<Rightarrow> [] | Some x \<Rightarrow> [Log (CouldNotRestart x)])"
    by (simp add: c5_def c4 split: option.splits)
  have fields: "workers c5 = workers c" "cleanups c5 = cleanups c"
    "registeredWorkerIds c5 = registeredWorkerIds c" "monitors c5 = monitors c"
    by (simp_all add: c5_def c4 c3_def c2_def c1_def split: option.splits)
  have rel: "releases c5 = releases c @ [t]"
    unfolding releases_def tr5 tr3 by (cases "release e t"; cases err; simp)
  have wr: "writes c5 = writes c"
    unfolding writes_def tr5 tr3 by (cases "release e t"; cases err; simp)
  have pr: "probes c5 = probes c @ [URL (m_ww ?m), URL (m_ww ?m)]"
    unfolding probes_def tr5 tr3 by (cases "release e t"; cases err; simp)
  have len5: "i < length (monitors c5)"
    using len fields by simp
  show ?thesis
    unfolding res
    using fields rel wr pr monitors_upd_monitor [OF len5]
      same_trace [of "upd_monitor i (\<lambda>m. m\<lparr>m_cleanups := [FnNil], returned := True, timer_armed := False\<rparr>) c5" c5]
    by simp
qed

subsection \<open>Calling the closures of healthy monitors\<close>

lemma call_run_single:
  assumes "i < length (monitors c)" and "m_cleanups (monitors c ! i) = [FnTransport t]"
  shows "call_fn e (Suc fuel) (FnRun i) c =
     (Return (map_option (Wrapped ''could not cleanup webhook worker'') (release e t)),
      emit (Released t) (upd_monitor i (\<lambda>m. m\<lparr>ctx_done := True\<rparr>) c))"
  using assms by (simp add: nth_upd_monitor split: option.splits)

lemma call_all_runs:
  assumes "\<forall>i\<in>set is. i < length (monitors c) \<and> m_cleanups (monitors c ! i) = [FnTransport (tr i)]"
  shows "fst (call_all e (Suc fuel) (map FnRun is) c) = Return (first_error e (map tr is))
     \<and> releases (snd (call_all e (Suc fuel) (map FnRun is) c)) =
         releases c @ until_error e (map tr is)"
  using assms
proof (induction "is" arbitrary: c)
  case Nil
  then show ?case by simp
next
  case (Cons i "is")
  let ?c1 = "emit (Released (tr i)) (upd_monitor i (\<lambda>m. m\<lparr>ctx_done := True\<rparr>) c)"
  have one: "call_fn e (Suc fuel) (FnRun i) c =
      (Return (map_option (Wrapped ''could not cleanup webhook worker'') (release e (tr i))), ?c1)"
    using Cons.prems by (intro call_run_single) simp_all
  have r1: "releases ?c1 = releases c @ [tr i]"
    by (simp add: releases_def)
  show ?case
  proof (cases "release e (tr i)")
    case None
    have "\<forall>j\<in>set is. j < length (monitors ?c1) \<and> m_cleanups (monitors ?c1 ! j) = [FnTransport (tr j)]"
      using Cons.prems by (simp add: nth_upd_monitor)
    from Cons.IH [OF this] show ?thesis
      using None r1 by (simp add: one del: call_fn.simps)
  next
    case (Some err)
    then show ?thesis
      using r1 by (simp add: one del: call_fn.simps)
  qed
qed

subsection \<open>One discovery cycle\<close>

lemma probes_emit_Log [simp]: "probes (emit (Log m) c) = probes c"
  by (simp add: probes_def)

lemma probes_cleanups [simp]: "probes (c\<lparr>cleanups := xs\<rparr>) = probes c"
  by (simp add: probes_def)

lemma probes_check_workers:
  "probes (check_workers e tid tok wws c) = probes c @ map URL wws"
proof (induction wws arbitrary: c)
  case Nil
  show ?case by simp
next
  case (Cons w wws)
  obtain f err c1 where r: "run e tid w tok c = ((f, err), c1)"
    by (cases "run e tid w tok c") auto
  have p1: "probes c1 = probes c @ [URL w]"
    using probes_run [of e tid w tok c] r by simp
  show ?case
    using r p1 Cons.IH by (cases err) simp_all
qed

lemma trace_check_workers:
  "\<exists>xs. trace (check_workers e tid tok wws c) = trace c @ xs"
proof (induction wws arbitrary: c)
  case Nil
  show ?case by simp
next
  case (Cons w wws)
  obtain f err c1 where r: "run e tid w tok c = ((f, err), c1)"
    by (cases "run e tid w tok c") auto
  obtain xs where t1: "trace c1 = trace c @ xs"
    using run_shape [of e tid w tok c] r by auto
  show ?case
  proof (cases err)
    case None
    obtain ys where "trace (check_workers e tid tok wws
        (if f \<noteq> FnNil then c1\<lparr>cleanups := cleanups c1 @ [f]\<rparr> else c1)) =
        trace (if f \<noteq> FnNil then c1\<lparr>cleanups := cleanups c1 @ [f]\<rparr> else c1) @ ys"
      using Cons.IH by blast
    then show ?thesis
      using r None t1 by simp
  next
    case (Some x)
    obtain ys where "trace (check_workers e tid tok wws (emit (Log (ErrorRunningWebhookWorker x)) c1)) =
        trace (emit (Log (ErrorRunningWebhookWorker x)) c1) @ ys"
      using Cons.IH by blast
    then show ?thesis
      using r Some t1 by simp
  qed
qed

lemma check_workers_logs_failure:
  assumes "run e tid w tok c = ((f, Some err), c1)"
  shows "Log (ErrorRunningWebhookWorker err) \<in> set (trace (check_workers e tid tok (w # wws) c))"
proof -
  obtain ys where "trace (check_workers e tid tok wws (emit (Log (ErrorRunningWebhookWorker err)) c1)) =
      trace (emit (Log (ErrorRunningWebhookWorker err)) c1) @ ys"
    using trace_check_workers by blast
  then show ?thesis
    using assms by simp
qed

lemma check_tenants_scanned:
  "fst (check_tenants e tids c) = scan_result e tids
   \<and> probes (snd (check_tenants e tids c)) =
       probes c @ concat (map (\<lambda>(tid, wws). map URL wws) (scanned e tids))"
proof (induction tids arbitrary: c)
  case Nil
  show ?case by simp
next
  case (Cons tid tids)
  show ?case
  proof (cases "generate_tenant_token e tid")
    case (Inl err)
    then show ?thesis by simp
  next
    case (Inr tok)
    show ?thesis
    proof (cases "list_webhook_workers e tid")
      case (Inl err)
      then show ?thesis using Inr by simp
    next
      case (Inr wws)
      then show ?thesis
        using \<open>generate_tenant_token e tid = Inr tok\<close> Cons.IH [of "check_workers e tid tok wws c"]
        by (simp add: probes_check_workers)
    qed
  qed
qed

subsection \<open>A timer that has fired and been read\<close>

lemma timer_spent:
  assumes "i < length (monitors c)"
    and "\<not> timer_armed (monitors c ! i)" and "\<not> timer_C (monitors c ! i)"
  shows "step e fuel (TimerElapse i) c = (Return (), c)"
    and "step e fuel (MonitorTimer i) c = (Return (), c)"
  using assms by (simp_all add: timer_elapse_def select_timer_def)

lemma exec_rounds_spent:
  assumes "i < length (monitors c)"
    and "\<not> timer_armed (monitors c ! i)" and "\<not> timer_C (monitors c ! i)"
  shows "exec e fuel (concat (replicate n [TimerElapse i, MonitorTimer i])) c = (Return (), c)"
proof (induction n)
  case 0
  show ?case by simp
next
  case (Suc n)
  show ?case
    using timer_spent [OF assms, of e fuel] Suc by (simp del: step.simps)
qed

lemma exec_append:
  "exec e fuel (xs @ ys) c =
     (case exec e fuel xs c of
        (Return u, c1) \<Rightarrow> exec e fuel ys c1
      | (Panics p, c1) \<Rightarrow> (Panics p, c1)
      | (NoResult, c1) \<Rightarrow> (NoResult, c1))"
proof (induction xs arbitrary: c)
  case Nil
  show ?case by simp
next
  case (Cons x xs)
  show ?case
    by (cases "step e fuel x c") (simp add: Cons split: outcome.splits del: step.simps)
qed

text \<open>The first ten seconds of a monitor: the timer fires and the loop takes the
  \<open>timer.C\<close> case.\<close>

lemma first_round:
  assumes "i < length (monitors c)"
    and "timer_armed (monitors c ! i)" and "\<not> returned (monitors c ! i)"
  shows "exec e fuel [TimerElapse i, MonitorTimer i] c =
     (case on_timer e fuel i (upd_monitor i (\<lambda>m. m\<lparr>timer_armed := False, timer_C := False\<rparr>) c) of
        (Return u, c1) \<Rightarrow> (Return (), c1)
      | (Panics p, c1) \<Rightarrow> (Panics p, c1)
      | (NoResult, c1) \<Rightarrow> (NoResult, c1))"
proof -
  have "upd_monitor i (\<lambda>m. m\<lparr>timer_C := False\<rparr>)
          (upd_monitor i (\<lambda>m. m\<lparr>timer_armed := False, timer_C := True\<rparr>) c) =
        upd_monitor i (\<lambda>m. m\<lparr>timer_armed := False, timer_C := False\<rparr>) c"
    using assms(1) by (simp add: upd_monitor_def)
  then show ?thesis
    using assms
    by (simp add: timer_elapse_def select_timer_def nth_upd_monitor
          split: prod.splits outcome.splits)
qed

subsection \<open>The sample controllers after the first discovery cycle\<close>

lemmas sample_defs = base_env_def manifest_def w1_def w2_def w3_def

lemmas cycle_defs =
  discovered_def Start_def New_def scan_tick_def check_def run_def healthcheck_def emit_def
  new_monitor_def hash_def Let_def

lemma discovered_base: "discovered base_env = discovered failing_env"
  by (simp add: failing_env_def sample_defs cycle_defs)

lemma discovered_changing: "discovered changing_env = discovered failing_env"
  by (simp add: changing_env_def failing_env_def sample_defs cycle_defs)

lemma discovered_failing:
  "discovered failing_env =
     \<lparr>registeredWorkerIds = [''w1'' \<mapsto> True], cleanups = [FnRun 0],
      monitors =
        [\<lparr>m_tenantId = ''t1'', m_ww = w1, m_token = ''token-t1'', m_cleanups = [FnTransport 0],
          ctx_done = False, timer_armed = True, timer_C = False, wfsHashLast = ''wf'',
          actionsHashLast = ''a,b'', healthCheckErrors = 0, returned = False\<rparr>],
      workers =
        [\<lparr>opt_Token = ''token-t1'', opt_ID = ''w1'', opt_Secret = ''s1'',
          opt_URL = ''http://w1/health'', opt_TenantID = ''t1'', opt_Actions = [''b'', ''a''],
          opt_Workflows = [''wf'']\<rparr>],
      started = True, start_ctx_done = False, scanner_returned = False, gets = 1,
      worker_calls = 1, updates = 0,
      trace =
        [Probe ''http://w1/health'',
         StartWorker
           \<lparr>opt_Token = ''token-t1'', opt_ID = ''w1'', opt_Secret = ''s1'',
            opt_URL = ''http://w1/health'', opt_TenantID = ''t1'', opt_Actions = [''b'', ''a''],
            opt_Workflows = [''wf'']\<rparr>]\<rparr>"
  by (simp add: failing_env_def sample_defs cycle_defs)

lemma discovered_release_fails:
  "cleanups (discovered release_fails_env) = [FnRun 0, FnRun 1]"
  "length (monitors (discovered release_fails_env)) = 2"
  "m_cleanups (monitors (discovered release_fails_env) ! 0) = [FnTransport 0]"
  "m_cleanups (monitors (discovered release_fails_env) ! 1) = [FnTransport 1]"
  "ctx_done (monitors (discovered release_fails_env) ! 1) = False"
  "releases (discovered release_fails_env) = []"
  by (simp_all add: release_fails_env_def sample_defs cycle_defs releases_def)

lemma discovered_second_release_fails:
  "cleanups (discovered second_release_fails_env) = [FnRun 0, FnRun 1, FnRun 2]"
  "length (monitors (discovered second_release_fails_env)) = 3"
  "m_cleanups (monitors (discovered second_release_fails_env) ! 0) = [FnTransport 0]"
  "m_cleanups (monitors (discovered second_release_fails_env) ! 1) = [FnTransport 1]"
  "m_cleanups (monitors (discovered second_release_fails_env) ! 2) = [FnTransport 2]"
  "releases (discovered second_release_fails_env) = []"
  by (simp_all add: second_release_fails_env_def sample_defs cycle_defs releases_def)

lemma manifest_of_failing: "1 \<le> n \<Longrightarrow> manifest_of failing_env n u = None"
  by (simp add: manifest_of_def failing_env_def sample_defs)

lemma manifest_of_changing:
  "1 \<le> n \<Longrightarrow> manifest_of changing_env n u = Some \<lparr>Actions = [''a'', ''b'', ''c''], Workflows = [''wf'']\<rparr>"
  by (simp add: manifest_of_def changing_env_def sample_defs)

lemma manifest_of_base:
  "manifest_of base_env n u = Some \<lparr>Actions = [''b'', ''a''], Workflows = [''wf'']\<rparr>"
  by (simp add: manifest_of_def sample_defs)

lemma hash_samples:
  "hash [''wf''] = ''wf''" "hash [''b'', ''a''] = ''a,b''" "hash [''a'', ''b''] = ''a,b''"
  "hash [''a'', ''b'', ''c''] = ''a,b,c''"
  by (simp_all add: hash_def)

text \<open>The state after discovery once the timer of monitor 0 has fired and its value has
  been received.\<close>

lemma timer_received:
  "monitors (upd_monitor 0 (\<lambda>m. m\<lparr>timer_armed := False, timer_C := False\<rparr>) (discovered failing_env)) =
     [\<lparr>m_tenantId = ''t1'', m_ww = w1, m_token = ''token-t1'', m_cleanups = [FnTransport 0],
       ctx_done = False, timer_armed = False, timer_C = False, wfsHashLast = ''wf'',
       actionsHashLast = ''a,b'', healthCheckErrors = 0, returned = False\<rparr>]"
  "gets (upd_monitor 0 (\<lambda>m. m\<lparr>timer_armed := False, timer_C := False\<rparr>) (discovered failing_env)) = 1"
  "registeredWorkerIds (upd_monitor 0 (\<lambda>m. m\<lparr>timer_armed := False, timer_C := False\<rparr>) (discovered failing_env)) ''w1'' = Some True"
  "length (workers (upd_monitor 0 (\<lambda>m. m\<lparr>timer_armed := False, timer_C := False\<rparr>) (discovered failing_env))) = 1"
  "cleanups (upd_monitor 0 (\<lambda>m. m\<lparr>timer_armed := False, timer_C := False\<rparr>) (discovered failing_env)) = [FnRun 0]"
  "probes (upd_monitor 0 (\<lambda>m. m\<lparr>timer_armed := False, timer_C := False\<rparr>) (discovered failing_env)) = [''http://w1/health'']"
  "releases (upd_monitor 0 (\<lambda>m. m\<lparr>timer_armed := False, timer_C := False\<rparr>) (discovered failing_env)) = []"
  "writes (upd_monitor 0 (\<lambda>m. m\<lparr>timer_armed := False, timer_C := False\<rparr>) (discovered failing_env)) = []"
  by (simp_all add: discovered_failing upd_monitor_def probes_def releases_def writes_def)

lemma first_round_discovered:
  assumes "on_timer e fuel 0
             (upd_monitor 0 (\<lambda>m. m\<lparr>timer_armed := False, timer_C := False\<rparr>) (discovered failing_env))
           = (Return (), c1)"
  shows "exec e fuel [TimerElapse 0, MonitorTimer 0] (discovered failing_env) = (Return (), c1)"
proof -
  have "0 < length (monitors (discovered failing_env))"
    "timer_armed (monitors (discovered failing_env) ! 0)"
    "\<not> returned (monitors (discovered failing_env) ! 0)"
    by (simp_all add: discovered_failing)
  from first_round [OF this, of e fuel] show ?thesis
    using assms by simp
qed

subsection \<open>What calling closures leaves alone\<close>

lemma call_keeps:
  "start_ctx_done (snd (call_fn e fuel f c)) = start_ctx_done c
   \<and> workers (snd (call_fn e fuel f c)) = workers c
   \<and> registeredWorkerIds (snd (call_fn e fuel f c)) = registeredWorkerIds c
   \<and> map m_ww (monitors (snd (call_fn e fuel f c))) = map m_ww (monitors c)"
  "start_ctx_done (snd (call_all e fuel fs c)) = start_ctx_done c
   \<and> workers (snd (call_all e fuel fs c)) = workers c
   \<and> registeredWorkerIds (snd (call_all e fuel fs c)) = registeredWorkerIds c
   \<and> map m_ww (monitors (snd (call_all e fuel fs c))) = map m_ww (monitors c)"
proof (induction e fuel f c and e fuel fs c rule: call_fn_call_all.induct)
  case (1 e fuel c)
  show ?case by simp
next
  case (2 e fuel t c)
  show ?case by simp
next
  case (3 e i c)
  show ?case by simp
next
  case (4 e fuel j c)
  show ?case
  proof (cases "j < length (monitors c)")
    case True
    have "map m_ww (monitors (upd_monitor j (\<lambda>m. m\<lparr>ctx_done := True\<rparr>) c)) = map m_ww (monitors c)"
      using True by (simp add: upd_monitor_def map_update list_update_same_conv)
    then show ?thesis
      using True "4.IH" by simp
  next
    case False
    then show ?thesis by simp
  qed
next
  case (5 e fuel c)
  show ?case by simp
next
  case (6 e fuel f fs c)
  obtain r c1 where r: "call_fn e fuel f c = (r, c1)"
    by (cases "call_fn e fuel f c")
  have k1: "start_ctx_done c1 = start_ctx_done c \<and> workers c1 = workers c
      \<and> registeredWorkerIds c1 = registeredWorkerIds c
      \<and> map m_ww (monitors c1) = map m_ww (monitors c)"
    using "6.IH"(1) r by simp
  show ?case
  proof (cases r)
    case (Return x)
    show ?thesis
    proof (cases x)
      case None
      then show ?thesis
        using "6.IH"(2) [OF r [symmetric] Return None] r Return k1 by simp
    next
      case (Some err)
      then show ?thesis using r Return k1 by simp
    qed
  next
    case (Panics p)
    then show ?thesis using r k1 by simp
  next
    case NoResult
    then show ?thesis using r k1 by simp
  qed
qed

lemma call_all_append:
  "call_all e fuel (fs @ gs) c =
     (case call_all e fuel fs c of
        (Return None, c1) \<Rightarrow> call_all e fuel gs c1
      | (Return (Some err), c1) \<Rightarrow> (Return (Some err), c1)
      | (Panics p, c1) \<Rightarrow> (Panics p, c1)
      | (NoResult, c1) \<Rightarrow> (NoResult, c1))"
proof (induction fs arbitrary: c)
  case Nil
  show ?case by simp
next
  case (Cons f fs)
  obtain r c1 where r: "call_fn e fuel f c = (r, c1)"
    by (cases "call_fn e fuel f c")
  show ?case
  proof (cases r)
    case (Return x)
    then show ?thesis
      using r Cons.IH [of c1] by (cases x) (simp_all del: call_fn.simps)
  next
    case (Panics p)
    then show ?thesis using r by (simp del: call_fn.simps)
  next
    case NoResult
    then show ?thesis using r by (simp del: call_fn.simps)
  qed
qed

subsection \<open>At most one transport and one monitor per identity\<close>

lemma one_per_id_cong:
  assumes "workers c' = workers c" and "map m_ww (monitors c') = map m_ww (monitors c)"
    and "registeredWorkerIds c' = registeredWorkerIds c"
  shows "one_per_id c' = one_per_id c"
proof -
  have "monitor_ids c' = map ID (map m_ww (monitors c'))"
    "monitor_ids c = map ID (map m_ww (monitors c))"
    by (simp_all add: monitor_ids_def)
  then have "monitor_ids c' = monitor_ids c"
    using assms(2) by simp
  then show ?thesis
    using assms(1,3) by (simp add: one_per_id_def worker_ids_def)
qed



lemma one_per_id_emit [simp]: "one_per_id (emit x c) = one_per_id c"
  by (rule one_per_id_cong) simp_all

lemma one_per_id_UpdateWorker_call [simp]:
  "one_per_id (UpdateWorker_call e tid wid a c) = one_per_id c"
  by (rule one_per_id_cong) simp_all












subsection \<open>More sample controllers\<close>



lemma discovered_two_workers:
  "monitors (discovered two_workers_changing_env) =
     [\<lparr>m_tenantId = ''t1'', m_ww = w1, m_token = ''token-t1'', m_cleanups = [FnTransport 0],
       ctx_done = False, timer_armed = True, timer_C = False, wfsHashLast = ''wf'',
       actionsHashLast = ''a,b'', healthCheckErrors = 0, returned = False\<rparr>,
      \<lparr>m_tenantId = ''t1'', m_ww = w2, m_token = ''token-t1'', m_cleanups = [FnTransport 1],
       ctx_done = False, timer_armed = True, timer_C = False, wfsHashLast = ''wf'',
       actionsHashLast = ''a,b'', healthCheckErrors = 0, returned = False\<rparr>]"
  "gets (discovered two_workers_changing_env) = 2"
  "registeredWorkerIds (discovered two_workers_changing_env) ''w1'' = Some True"
  "cleanups (discovered two_workers_changing_env) = [FnRun 0, FnRun 1]"
  "releases (discovered two_workers_changing_env) = []"
  "length (workers (discovered two_workers_changing_env)) = 2"
  by (simp_all add: two_workers_changing_env_def sample_defs cycle_defs releases_def)

section \<open>A changed manifest\<close>

text \<open>C1 at the spec's own example: a worker started with the actions \<open>b, a\<close> reports
  \<open>a, b, c\<close> on the first tick of its monitor. The monitor releases the old transport
  once; the re-invoked \<open>run\<close> probes, finds the identity registered and returns without
  starting anything. Afterwards there is still one transport ever started (the released
  one) and one monitor (the old one, returned, holding the chain \<open>[nil]\<close> and the old
  baseline \<open>a,b\<close>): no replacement transport and no new monitor.\<close>

theorem changed_manifest_starts_no_replacement:
  "fst (exec changing_env 1 [TimerElapse 0, MonitorTimer 0] (discovered changing_env)) = Return ()
   \<and> releases (snd (exec changing_env 1 [TimerElapse 0, MonitorTimer 0] (discovered changing_env))) = [0]
   \<and> probes (snd (exec changing_env 1 [TimerElapse 0, MonitorTimer 0] (discovered changing_env)))
       = [URL w1, URL w1, URL w1]
   \<and> length (workers (snd (exec changing_env 1 [TimerElapse 0, MonitorTimer 0] (discovered changing_env)))) = 1
   \<and> monitors (snd (exec changing_env 1 [TimerElapse 0, MonitorTimer 0] (discovered changing_env))) =
       [\<lparr>m_tenantId = ''t1'', m_ww = w1, m_token = ''token-t1'', m_cleanups = [FnNil],
         ctx_done = False, timer_armed = False, timer_C = False, wfsHashLast = ''wf'',
         actionsHashLast = ''a,b'', healthCheckErrors = 0, returned = True\<rparr>]"
proof -
  have c: "discovered changing_env = discovered failing_env"
    by (rule discovered_changing)
  let ?a = "upd_monitor 0 (\<lambda>m. m\<lparr>timer_armed := False, timer_C := False\<rparr>) (discovered failing_env)"
  let ?h = "\<lparr>Actions = [''a'', ''b'', ''c''], Workflows = [''wf'']\<rparr>"
  have len: "0 < length (monitors ?a)"
    using timer_received(1) by simp
  have ok: "manifest_of changing_env (gets ?a) (URL (m_ww (monitors ?a ! 0))) = Some ?h"
    using timer_received(1,2) by (simp add: manifest_of_changing)
  have ch: "hash (Workflows ?h) \<noteq> wfsHashLast (monitors ?a ! 0)
      \<or> hash (Actions ?h) \<noteq> actionsHashLast (monitors ?a ! 0)"
    using timer_received(1) by (simp add: hash_samples)
  have chain: "m_cleanups (monitors ?a ! 0) = [FnTransport 0]"
    using timer_received(1) by simp
  have reg: "registeredWorkerIds ?a (ID (m_ww (monitors ?a ! 0))) \<noteq> None"
    using timer_received(1,3) by (simp add: w1_def)
  note t = on_timer_changed [OF len ok ch chain reg, of 1]
  obtain c1 where c1: "on_timer changing_env 1 0 ?a = (Return (), c1)"
    using t by (cases "on_timer changing_env 1 0 ?a") auto
  have r: "exec changing_env 1 [TimerElapse 0, MonitorTimer 0] (discovered failing_env) = (Return (), c1)"
    using c1 by (rule first_round_discovered)
  have "releases c1 = [0]" "probes c1 = [URL w1, URL w1, URL w1]" "length (workers c1) = 1"
    "monitors c1 =
       [\<lparr>m_tenantId = ''t1'', m_ww = w1, m_token = ''token-t1'', m_cleanups = [FnNil],
         ctx_done = False, timer_armed = False, timer_C = False, wfsHashLast = ''wf'',
         actionsHashLast = ''a,b'', healthCheckErrors = 0, returned = True\<rparr>]"
    using t c1 timer_received by (simp_all add: w1_def)
  then show ?thesis
    unfolding c r by simp
qed

section \<open>Failing probes and the active flag\<close>

text \<open>C2 at a worker whose every probe after the startup probe fails, never cancelled,
  over any number \<open>n + 1\<close> of ten-second periods with the monitor scheduled after each:
  the monitor takes the \<open>timer.C\<close> case once, the failure counter goes to 1 and stays
  there, and the active flag is never written to false. A 4th consecutive failure does not
  happen, because the timer made by \<open>time.NewTimer\<close> delivers one value (the defect of
  C5).\<close>

theorem failing_probes_never_write_false:
  "\<forall>n. fst (exec failing_env 1 (concat (replicate (Suc n) [TimerElapse 0, MonitorTimer 0]))
              (discovered failing_env)) = Return ()
      \<and> writes (snd (exec failing_env 1 (concat (replicate (Suc n) [TimerElapse 0, MonitorTimer 0]))
              (discovered failing_env))) = []
      \<and> probes (snd (exec failing_env 1 (concat (replicate (Suc n) [TimerElapse 0, MonitorTimer 0]))
              (discovered failing_env))) = [URL w1, URL w1]
      \<and> monitors (snd (exec failing_env 1 (concat (replicate (Suc n) [TimerElapse 0, MonitorTimer 0]))
              (discovered failing_env))) =
          [\<lparr>m_tenantId = ''t1'', m_ww = w1, m_token = ''token-t1'', m_cleanups = [FnTransport 0],
            ctx_done = False, timer_armed = False, timer_C = False, wfsHashLast = ''wf'',
            actionsHashLast = ''a,b'', healthCheckErrors = 1, returned = False\<rparr>]"
proof
  fix n
  let ?c0 = "discovered failing_env"
  let ?a = "upd_monitor 0 (\<lambda>m. m\<lparr>timer_armed := False, timer_C := False\<rparr>) ?c0"
  have len: "0 < length (monitors ?a)"
    using timer_received(1) by simp
  have fail: "manifest_of failing_env (gets ?a) (URL (m_ww (monitors ?a ! 0))) = None"
    using timer_received(1,2) by (simp add: manifest_of_failing)
  note once = on_timer_failure [OF len fail, of 1]
  obtain c1 where c1: "on_timer failing_env 1 0 ?a = (Return (), c1)"
    using once by (cases "on_timer failing_env 1 0 ?a") auto
  have m1: "monitors c1 =
      [\<lparr>m_tenantId = ''t1'', m_ww = w1, m_token = ''token-t1'', m_cleanups = [FnTransport 0],
        ctx_done = False, timer_armed = False, timer_C = False, wfsHashLast = ''wf'',
        actionsHashLast = ''a,b'', healthCheckErrors = 1, returned = False\<rparr>]"
    and w1: "writes c1 = []"
    using once c1 timer_received(1,8) by simp_all
  obtain err where h: "healthcheck failing_env (m_ww (monitors ?a ! 0)) ?a =
      (Inl err, emit (Probe (URL (m_ww (monitors ?a ! 0)))) (?a\<lparr>gets := gets ?a + 1\<rparr>))"
    using healthcheck_None [OF fail] by blast
  have "probes (snd (on_timer failing_env 1 0 ?a)) = probes ?a @ [URL (m_ww (monitors ?a ! 0))]"
    using h timer_received(1) by (simp add: on_timer_def Let_def probes_def UpdateWorker_call_def
        split: option.splits)
  then have p1: "probes c1 = [URL w1, URL w1]"
    using c1 timer_received(1,6) by (simp add: w1_def)
  have r: "exec failing_env 1 [TimerElapse 0, MonitorTimer 0] ?c0 = (Return (), c1)"
    using c1 by (rule first_round_discovered)
  have spent: "0 < length (monitors c1)" "\<not> timer_armed (monitors c1 ! 0)"
    "\<not> timer_C (monitors c1 ! 0)"
    using m1 by simp_all
  have "exec failing_env 1 ([TimerElapse 0, MonitorTimer 0] @ concat (replicate n [TimerElapse 0, MonitorTimer 0])) ?c0 =
        exec failing_env 1 (concat (replicate n [TimerElapse 0, MonitorTimer 0])) c1"
    unfolding exec_append r by simp
  then have "exec failing_env 1 (concat (replicate (Suc n) [TimerElapse 0, MonitorTimer 0])) ?c0 =
      (Return (), c1)"
    using exec_rounds_spent [OF spent, of failing_env 1 n] by simp
  then show "fst (exec failing_env 1 (concat (replicate (Suc n) [TimerElapse 0, MonitorTimer 0])) ?c0) = Return ()
      \<and> writes (snd (exec failing_env 1 (concat (replicate (Suc n) [TimerElapse 0, MonitorTimer 0])) ?c0)) = []
      \<and> probes (snd (exec failing_env 1 (concat (replicate (Suc n) [TimerElapse 0, MonitorTimer 0])) ?c0))
          = [URL w1, URL w1]
      \<and> monitors (snd (exec failing_env 1 (concat (replicate (Suc n) [TimerElapse 0, MonitorTimer 0])) ?c0)) =
          [\<lparr>m_tenantId = ''t1'', m_ww = w1, m_token = ''token-t1'', m_cleanups = [FnTransport 0],
            ctx_done = False, timer_armed = False, timer_C = False, wfsHashLast = ''wf'',
            actionsHashLast = ''a,b'', healthCheckErrors = 1, returned = False\<rparr>]"
    using m1 w1 p1 by simp
qed

section \<open>Shutdown\<close>

text \<open>C3, as amended: the shutdown function cancels the context of the discovery loop
  and then calls the accumulated release closures front to back, stopping at the first one
  that does not return \<open>nil\<close>: its error (already wrapped by the loop) or its panic is
  the outcome of shutdown, the controller is left as that call left it, and the closures
  after it are not called. For closures of monitors that have not taken the restart branch
  (each chain is the release function of its transport) the transports released are those
  up to and including the first whose release fails, and only when no release fails is
  every transport released and \<open>nil\<close> returned.\<close>

theorem shutdown_stops_at_first_error:
  "start_ctx_done (snd (shutdown e fuel c))
   \<and> (cleanups c = fs @ gs \<longrightarrow>
        shutdown e fuel c =
          (case call_all e fuel fs (c\<lparr>start_ctx_done := True\<rparr>) of
             (Return None, c1) \<Rightarrow> call_all e fuel gs c1
           | (Return (Some err), c1) \<Rightarrow> (Return (Some err), c1)
           | (Panics p, c1) \<Rightarrow> (Panics p, c1)
           | (NoResult, c1) \<Rightarrow> (NoResult, c1)))
   \<and> (cleanups c = map FnRun is
        \<and> (\<forall>i\<in>set is. i < length (monitors c)
               \<and> m_cleanups (monitors c ! i) = [FnTransport (tr i)]) \<longrightarrow>
        fst (shutdown e (Suc fuel) c) = Return (first_error e (map tr is))
        \<and> releases (snd (shutdown e (Suc fuel) c)) = releases c @ until_error e (map tr is))"
proof (intro conjI impI)
  show "start_ctx_done (snd (shutdown e fuel c))"
    by (simp add: shutdown_def call_keeps)
next
  assume "cleanups c = fs @ gs"
  then show "shutdown e fuel c =
          (case call_all e fuel fs (c\<lparr>start_ctx_done := True\<rparr>) of
             (Return None, c1) \<Rightarrow> call_all e fuel gs c1
           | (Return (Some err), c1) \<Rightarrow> (Return (Some err), c1)
           | (Panics p, c1) \<Rightarrow> (Panics p, c1)
           | (NoResult, c1) \<Rightarrow> (NoResult, c1))"
    by (simp add: shutdown_def call_all_append)
next
  assume a: "cleanups c = map FnRun is
        \<and> (\<forall>i\<in>set is. i < length (monitors c)
               \<and> m_cleanups (monitors c ! i) = [FnTransport (tr i)])"
  let ?c = "c\<lparr>start_ctx_done := True\<rparr>"
  have "\<forall>i\<in>set is. i < length (monitors ?c) \<and> m_cleanups (monitors ?c ! i) = [FnTransport (tr i)]"
    using a by simp
  from call_all_runs [OF this, of e fuel]
  show "fst (shutdown e (Suc fuel) c) = Return (first_error e (map tr is))"
    and "releases (snd (shutdown e (Suc fuel) c)) = releases c @ until_error e (map tr is)"
    using a by (simp_all add: shutdown_def releases_def del: call_fn.simps)
qed

text \<open>Three healthy workers, the release of the second transport fails: shutdown
  cancels the discovery context, releases the first and the second transport, returns the
  error, and leaves the controller as the second call left it, the third closure not being
  called. Two workers of which the first has taken the restart branch: shutdown panics in
  the first closure and the second transport is never released.\<close>

theorem shutdown_stops_at_first_error_witness:
  "start_ctx_done (snd (shutdown second_release_fails_env (Suc 0) (discovered second_release_fails_env)))
   \<and> shutdown second_release_fails_env (Suc 0) (discovered second_release_fails_env) =
       (Return (Some (Wrapped ''could not cleanup webhook worker''
                       (Wrapped ''could not cleanup webhook worker'' (External ''stop failed'')))),
        snd (call_all second_release_fails_env (Suc 0) [FnRun 0, FnRun 1]
               ((discovered second_release_fails_env)\<lparr>start_ctx_done := True\<rparr>)))
   \<and> releases (snd (shutdown second_release_fails_env (Suc 0)
        (discovered second_release_fails_env))) = [0, 1]
   \<and> cleanups (snd (exec two_workers_changing_env 1 [TimerElapse 0, MonitorTimer 0]
        (discovered two_workers_changing_env))) = [FnRun 0, FnRun 1]
   \<and> fst (shutdown two_workers_changing_env (Suc 0)
        (snd (exec two_workers_changing_env 1 [TimerElapse 0, MonitorTimer 0]
               (discovered two_workers_changing_env)))) = Panics NilFunc
   \<and> releases (snd (shutdown two_workers_changing_env (Suc 0)
        (snd (exec two_workers_changing_env 1 [TimerElapse 0, MonitorTimer 0]
               (discovered two_workers_changing_env))))) = [0]"
proof -
  let ?E = second_release_fails_env
  let ?c = "discovered ?E"
  let ?c' = "?c\<lparr>start_ctx_done := True\<rparr>"
  have cl: "cleanups ?c = map FnRun [0, 1, 2]"
    by (simp add: discovered_second_release_fails)
  have ch: "\<forall>i\<in>set [0, 1, 2]. i < length (monitors ?c) \<and> m_cleanups (monitors ?c ! i) = [FnTransport (id i)]"
    using discovered_second_release_fails by simp
  have rel: "release ?E 0 = None" "release ?E 1 = Some (External ''stop failed'')"
    by (simp_all add: second_release_fails_env_def)
  note th = shutdown_stops_at_first_error [of ?E "Suc 0" ?c "[FnRun 0, FnRun 1]" "[FnRun 2]" "[0, 1, 2]" id]
  note th0 = shutdown_stops_at_first_error [of ?E 0 ?c "[FnRun 0, FnRun 1]" "[FnRun 2]" "[0, 1, 2]" id]
  have 1: "start_ctx_done (snd (shutdown ?E (Suc 0) ?c))"
    using th by blast
  have 3: "fst (shutdown ?E (Suc 0) ?c) =
      Return (Some (Wrapped ''could not cleanup webhook worker''
                     (Wrapped ''could not cleanup webhook worker'' (External ''stop failed''))))"
    "releases (snd (shutdown ?E (Suc 0) ?c)) = [0, 1]"
    using th0 cl ch discovered_second_release_fails(6) rel by simp_all
  have ch2: "\<forall>i\<in>set [0, 1]. i < length (monitors ?c') \<and> m_cleanups (monitors ?c' ! i) = [FnTransport (id i)]"
    using discovered_second_release_fails by simp
  have pre: "fst (call_all ?E (Suc 0) [FnRun 0, FnRun 1] ?c') =
      Return (Some (Wrapped ''could not cleanup webhook worker''
                     (Wrapped ''could not cleanup webhook worker'' (External ''stop failed''))))"
    using call_all_runs [OF ch2, of ?E 0] rel by simp
  have "cleanups ?c = [FnRun 0, FnRun 1] @ [FnRun 2]"
    by (simp add: discovered_second_release_fails)
  with th have "shutdown ?E (Suc 0) ?c =
      (case call_all ?E (Suc 0) [FnRun 0, FnRun 1] ?c' of
         (Return None, c1) \<Rightarrow> call_all ?E (Suc 0) [FnRun 2] c1
       | (Return (Some err), c1) \<Rightarrow> (Return (Some err), c1)
       | (Panics p, c1) \<Rightarrow> (Panics p, c1)
       | (NoResult, c1) \<Rightarrow> (NoResult, c1))"
    by blast
  then have 2: "shutdown ?E (Suc 0) ?c =
      (Return (Some (Wrapped ''could not cleanup webhook worker''
                      (Wrapped ''could not cleanup webhook worker'' (External ''stop failed'')))),
       snd (call_all ?E (Suc 0) [FnRun 0, FnRun 1] ?c'))"
    using pre by (cases "call_all ?E (Suc 0) [FnRun 0, FnRun 1] ?c'") simp
  let ?T = two_workers_changing_env
  let ?a = "upd_monitor 0 (\<lambda>m. m\<lparr>timer_armed := False, timer_C := False\<rparr>) (discovered ?T)"
  let ?h = "\<lparr>Actions = [''a'', ''b'', ''c''], Workflows = [''wf'']\<rparr>"
  have a: "monitors ?a ! 0 =
      \<lparr>m_tenantId = ''t1'', m_ww = w1, m_token = ''token-t1'', m_cleanups = [FnTransport 0],
       ctx_done = False, timer_armed = False, timer_C = False, wfsHashLast = ''wf'',
       actionsHashLast = ''a,b'', healthCheckErrors = 0, returned = False\<rparr>"
    "length (monitors ?a) = 2" "gets ?a = 2" "registeredWorkerIds ?a ''w1'' = Some True"
    "cleanups ?a = [FnRun 0, FnRun 1]" "releases ?a = []"
    using discovered_two_workers by (simp_all add: upd_monitor_def releases_def)
  have len: "0 < length (monitors ?a)"
    using a(2) by simp
  have ok: "manifest_of ?T (gets ?a) (URL (m_ww (monitors ?a ! 0))) = Some ?h"
    using a(1,3) by (simp add: manifest_of_def two_workers_changing_env_def sample_defs)
  have chg: "hash (Workflows ?h) \<noteq> wfsHashLast (monitors ?a ! 0)
      \<or> hash (Actions ?h) \<noteq> actionsHashLast (monitors ?a ! 0)"
    using a(1) by (simp add: hash_samples)
  have chain: "m_cleanups (monitors ?a ! 0) = [FnTransport 0]"
    using a(1) by simp
  have reg: "registeredWorkerIds ?a (ID (m_ww (monitors ?a ! 0))) \<noteq> None"
    using a(1,4) by (simp add: w1_def)
  note t = on_timer_changed [OF len ok chg chain reg, of 1]
  obtain d where d: "on_timer ?T 1 0 ?a = (Return (), d)"
    using t by (cases "on_timer ?T 1 0 ?a") auto
  have "0 < length (monitors (discovered ?T))" "timer_armed (monitors (discovered ?T) ! 0)"
    "\<not> returned (monitors (discovered ?T) ! 0)"
    using discovered_two_workers(1) by simp_all
  from first_round [OF this, of ?T 1]
  have r: "exec ?T 1 [TimerElapse 0, MonitorTimer 0] (discovered ?T) = (Return (), d)"
    using d by simp
  have dd: "cleanups d = [FnRun 0, FnRun 1]" "releases d = [0]" "frozen 0 [FnNil] d"
    using t d a len by (simp_all add: frozen_def)
  let ?d' = "d\<lparr>start_ctx_done := True\<rparr>"
  have "frozen 0 [FnNil] ?d'"
    using dd(3) by (simp add: frozen_def)
  then have cf: "call_fn ?T (Suc 0) (FnRun 0) ?d' =
      (Panics NilFunc, upd_monitor 0 (\<lambda>m. m\<lparr>ctx_done := True\<rparr>) ?d')"
    by (rule frozen_Nil_panics)
  have ca: "call_all ?T (Suc 0) [FnRun 0] ?d' =
      (Panics NilFunc, upd_monitor 0 (\<lambda>m. m\<lparr>ctx_done := True\<rparr>) ?d')"
    using cf by (simp del: call_fn.simps)
  have "cleanups d = [FnRun 0] @ [FnRun 1]"
    using dd(1) by simp
  with shutdown_stops_at_first_error [of ?T "Suc 0" d "[FnRun 0]" "[FnRun 1]" "[]" id]
  have "shutdown ?T (Suc 0) d =
      (case call_all ?T (Suc 0) [FnRun 0] ?d' of
         (Return None, c1) \<Rightarrow> call_all ?T (Suc 0) [FnRun 1] c1
       | (Return (Some err), c1) \<Rightarrow> (Return (Some err), c1)
       | (Panics p, c1) \<Rightarrow> (Panics p, c1)
       | (NoResult, c1) \<Rightarrow> (NoResult, c1))"
    by blast
  then have sd: "shutdown ?T (Suc 0) d = (Panics NilFunc, upd_monitor 0 (\<lambda>m. m\<lparr>ctx_done := True\<rparr>) ?d')"
    unfolding ca by simp
  have "releases (upd_monitor 0 (\<lambda>m. m\<lparr>ctx_done := True\<rparr>) ?d') = releases d"
    by (simp add: releases_def)
  then have 4: "cleanups (snd (exec ?T 1 [TimerElapse 0, MonitorTimer 0] (discovered ?T))) = [FnRun 0, FnRun 1]"
    "fst (shutdown ?T (Suc 0) (snd (exec ?T 1 [TimerElapse 0, MonitorTimer 0] (discovered ?T)))) = Panics NilFunc"
    "releases (snd (shutdown ?T (Suc 0) (snd (exec ?T 1 [TimerElapse 0, MonitorTimer 0] (discovered ?T))))) = [0]"
    unfolding r using sd dd by simp_all
  show ?thesis
    using 1 2 3(2) 4 by blast
qed

text \<open>The claim as stated fails: with two started workers, when releasing the first
  transport fails, shutdown returns that error and the second transport is never released;
  its monitor is not even cancelled.\<close>

theorem shutdown_skips_after_error:
  "cleanups (discovered release_fails_env) = [FnRun 0, FnRun 1]
   \<and> fst (shutdown release_fails_env (Suc 0) (discovered release_fails_env)) =
       Return (Some (Wrapped ''could not cleanup webhook worker''
                      (Wrapped ''could not cleanup webhook worker'' (External ''stop failed''))))
   \<and> releases (snd (shutdown release_fails_env (Suc 0) (discovered release_fails_env))) = [0]"
proof -
  let ?c = "discovered release_fails_env"
  let ?d = "?c\<lparr>start_ctx_done := True\<rparr>"
  have ch: "\<forall>i\<in>set [0, 1]. i < length (monitors ?d) \<and> m_cleanups (monitors ?d ! i) = [FnTransport (id i)]"
    using discovered_release_fails by simp
  have rel: "release release_fails_env 0 = Some (External ''stop failed'')"
    by (simp add: release_fails_env_def)
  have "releases ?d = []"
    using discovered_release_fails(6) by (simp add: releases_def)
  then show ?thesis
    using call_all_runs [OF ch, of release_fails_env 0] discovered_release_fails(1)
    by (simp add: shutdown_def rel del: call_fn.simps)
qed

section \<open>One discovery cycle\<close>

text \<open>C4, as amended: within one cycle a worker whose startup fails is logged and the
  remaining workers of its tenant and the remaining tenants are still scanned; but a
  tenant whose worker listing fails ends the cycle: \<open>check\<close> returns that error at once
  and no later tenant is scanned. The workers probed in a cycle are exactly the workers of
  the tenants before the first one whose token or listing fails.\<close>

theorem check_scans_until_listing_fails:
  "fst (check_tenants e tids c) = scan_result e tids
   \<and> probes (snd (check_tenants e tids c)) =
       probes c @ concat (map (\<lambda>(tid, wws). map URL wws) (scanned e tids))
   \<and> probes (check_workers e tid tok (w # wws) c) = probes c @ URL w # map URL wws
   \<and> (run e tid w tok c = ((f, Some err), c1) \<longrightarrow>
        Log (ErrorRunningWebhookWorker err) \<in> set (trace (check_workers e tid tok (w # wws) c)))
   \<and> (list_webhook_workers e tid = Inl err \<and> generate_tenant_token e tid = Inr tok \<longrightarrow>
        check_tenants e (tid # tids) c =
          (Return (Some (Wrapped ''could not get webhook workers'' err)), c))"
  using check_tenants_scanned [of e tids c] probes_check_workers [of e tid tok "w # wws" c]
    check_workers_logs_failure [of e tid w tok c f err c1 wws]
  by simp

text \<open>Three tenants: the unreachable first worker of the first tenant is logged and the
  second worker is still probed; the listing of the second tenant fails, \<open>check\<close> returns
  that error, and the worker of the third tenant is not probed.\<close>

theorem check_scans_until_listing_fails_witness:
  "fst (check mixed_env (Start New)) =
     Return (Some (Wrapped ''could not get webhook workers'' (External ''db down'')))
   \<and> probes (snd (check mixed_env (Start New))) = [URL w1, URL w2]
   \<and> Log (ErrorRunningWebhookWorker
           (Wrapped ''healthcheck failed'' (Wrapped ''could not send request'' (External ''refused''))))
       \<in> set (trace (check_workers mixed_env ''t1'' ''token-t1'' [w1, w2] (Start New)))
   \<and> check_tenants mixed_env [''t2'', ''t3''] New =
       (Return (Some (Wrapped ''could not get webhook workers'' (External ''db down''))), New)"
proof -
  have run1: "run mixed_env ''t1'' w1 ''token-t1'' (Start New) =
      ((FnNil, Some (Wrapped ''healthcheck failed''
          (Wrapped ''could not send request'' (External ''refused'')))),
       snd (run mixed_env ''t1'' w1 ''token-t1'' (Start New)))"
    by (simp add: run_def healthcheck_def mixed_env_def base_env_def)
  have sc: "scanned mixed_env [''t1'', ''t2'', ''t3''] = [(''t1'', [w1, w2])]"
    "scan_result mixed_env [''t1'', ''t2'', ''t3''] =
       Return (Some (Wrapped ''could not get webhook workers'' (External ''db down'')))"
    by (simp_all add: mixed_env_def base_env_def)
  have lt: "list_tenants mixed_env = Inr [''t1'', ''t2'', ''t3'']"
    by (simp add: mixed_env_def base_env_def)
  have l2: "list_webhook_workers mixed_env ''t2'' = Inl (External ''db down'')
      \<and> generate_tenant_token mixed_env ''t2'' = Inr ''token-t2''"
    by (simp add: mixed_env_def base_env_def)
  have p0: "probes (Start New) = []"
    by (simp add: Start_def New_def probes_def)
  note a = check_scans_until_listing_fails
    [of mixed_env "[''t1'', ''t2'', ''t3'']" "Start New" "''t1''" "''token-t1''" w1 "[w2]" FnNil
      "Wrapped ''healthcheck failed'' (Wrapped ''could not send request'' (External ''refused''))"
      "snd (run mixed_env ''t1'' w1 ''token-t1'' (Start New))"]
  note b = check_scans_until_listing_fails
    [of mixed_env "[''t3'']" "New" "''t2''" "''token-t2''" w1 "[]" FnNil "External ''db down''" New]
  have ck: "check mixed_env (Start New) = check_tenants mixed_env [''t1'', ''t2'', ''t3''] (Start New)"
    by (simp add: check_def lt)
  have 1: "fst (check mixed_env (Start New)) =
     Return (Some (Wrapped ''could not get webhook workers'' (External ''db down'')))"
    unfolding ck using a [THEN conjunct1] sc(2) by (simp only:)
  have 2: "probes (snd (check mixed_env (Start New))) = [URL w1, URL w2]"
    unfolding ck using a [THEN conjunct2, THEN conjunct1] by (simp only: sc p0) simp
  have 3: "Log (ErrorRunningWebhookWorker
           (Wrapped ''healthcheck failed'' (Wrapped ''could not send request'' (External ''refused''))))
       \<in> set (trace (check_workers mixed_env ''t1'' ''token-t1'' [w1, w2] (Start New)))"
    using a run1 by blast
  have 4: "check_tenants mixed_env [''t2'', ''t3''] New =
       (Return (Some (Wrapped ''could not get webhook workers'' (External ''db down''))), New)"
    using b l2 by blast
  show ?thesis
    using 1 2 3 4 by blast
qed

text \<open>The claim as stated fails: with two tenants, when listing the workers of the
  first fails, \<open>check\<close> returns the error and the worker of the second tenant is neither
  probed nor started in that cycle; the discovery loop logs the error of the cycle.\<close>

theorem listing_failure_aborts_cycle:
  "list_webhook_workers listing_fails_env ''t2'' = Inr [w2]
   \<and> fst (check listing_fails_env (Start New)) =
       Return (Some (Wrapped ''could not get webhook workers'' (External ''db down'')))
   \<and> probes (snd (check listing_fails_env (Start New))) = []
   \<and> monitors (snd (check listing_fails_env (Start New))) = []
   \<and> trace (snd (scan_tick listing_fails_env (Start New))) =
       [Log (ErrorCheckingWebhooks (Wrapped ''could not get webhook workers'' (External ''db down'')))]"
  by (simp add: listing_fails_env_def base_env_def check_def scan_tick_def Start_def New_def
        probes_def emit_def)

section \<open>The monitor's timer\<close>

text \<open>C5 on a healthy worker that is never cancelled and never changes: however many
  ten-second periods pass (\<open>n + 1\<close> of them, the monitor being scheduled after each), the
  monitor issues one probe, in the first period; the trace holds the startup probe and that
  one. The timer made by \<open>time.NewTimer\<close> has fired and is never reset, and the loop,
  neither returned nor cancelled, waits on a channel that receives nothing more.\<close>

theorem monitor_probes_once:
  "\<forall>n. fst (exec base_env 1 (concat (replicate (Suc n) [TimerElapse 0, MonitorTimer 0]))
              (discovered base_env)) = Return ()
      \<and> probes (snd (exec base_env 1 (concat (replicate (Suc n) [TimerElapse 0, MonitorTimer 0]))
              (discovered base_env))) = [URL w1, URL w1]
      \<and> monitors (snd (exec base_env 1 (concat (replicate (Suc n) [TimerElapse 0, MonitorTimer 0]))
              (discovered base_env))) =
          [\<lparr>m_tenantId = ''t1'', m_ww = w1, m_token = ''token-t1'', m_cleanups = [FnTransport 0],
            ctx_done = False, timer_armed = False, timer_C = False, wfsHashLast = ''wf'',
            actionsHashLast = ''a,b'', healthCheckErrors = 0, returned = False\<rparr>]"
proof
  fix n
  have c: "discovered base_env = discovered failing_env"
    by (rule discovered_base)
  let ?a = "upd_monitor 0 (\<lambda>m. m\<lparr>timer_armed := False, timer_C := False\<rparr>) (discovered failing_env)"
  let ?h = "\<lparr>Actions = [''b'', ''a''], Workflows = [''wf'']\<rparr>"
  have len: "0 < length (monitors ?a)"
    using timer_received(1) by simp
  have ok: "manifest_of base_env (gets ?a) (URL (m_ww (monitors ?a ! 0))) = Some ?h"
    by (rule manifest_of_base)
  have wf: "hash (Workflows ?h) = wfsHashLast (monitors ?a ! 0)"
    using timer_received(1) by (simp add: hash_samples)
  have ac: "hash (Actions ?h) = actionsHashLast (monitors ?a ! 0)"
    using timer_received(1) by (simp add: hash_samples)
  note t = on_timer_healthy [OF len ok wf ac, of 1]
  obtain c1 where c1: "on_timer base_env 1 0 ?a = (Return (), c1)"
    using t by (cases "on_timer base_env 1 0 ?a") auto
  have r: "exec base_env 1 [TimerElapse 0, MonitorTimer 0] (discovered failing_env) = (Return (), c1)"
    using c1 by (rule first_round_discovered)
  have m1: "monitors c1 =
      [\<lparr>m_tenantId = ''t1'', m_ww = w1, m_token = ''token-t1'', m_cleanups = [FnTransport 0],
        ctx_done = False, timer_armed = False, timer_C = False, wfsHashLast = ''wf'',
        actionsHashLast = ''a,b'', healthCheckErrors = 0, returned = False\<rparr>]"
    using t c1 timer_received(1) by simp
  have p1: "probes c1 = [URL w1, URL w1]"
    using probes_append [of c1 ?a] t c1 timer_received(1,6)
    by (cases "update_worker base_env (updates ?a)") (simp_all add: w1_def)
  have spent: "0 < length (monitors c1)" "\<not> timer_armed (monitors c1 ! 0)"
    "\<not> timer_C (monitors c1 ! 0)"
    using m1 by simp_all
  have "exec base_env 1 ([TimerElapse 0, MonitorTimer 0] @ concat (replicate n [TimerElapse 0, MonitorTimer 0]))
          (discovered failing_env) =
        exec base_env 1 (concat (replicate n [TimerElapse 0, MonitorTimer 0])) c1"
    unfolding exec_append r by simp
  then have "exec base_env 1 (concat (replicate (Suc n) [TimerElapse 0, MonitorTimer 0]))
          (discovered failing_env) = (Return (), c1)"
    using exec_rounds_spent [OF spent, of base_env 1 n] by simp
  then show "fst (exec base_env 1 (concat (replicate (Suc n) [TimerElapse 0, MonitorTimer 0]))
              (discovered base_env)) = Return ()
      \<and> probes (snd (exec base_env 1 (concat (replicate (Suc n) [TimerElapse 0, MonitorTimer 0]))
              (discovered base_env))) = [URL w1, URL w1]
      \<and> monitors (snd (exec base_env 1 (concat (replicate (Suc n) [TimerElapse 0, MonitorTimer 0]))
              (discovered base_env))) =
          [\<lparr>m_tenantId = ''t1'', m_ww = w1, m_token = ''token-t1'', m_cleanups = [FnTransport 0],
            ctx_done = False, timer_armed = False, timer_C = False, wfsHashLast = ''wf'',
            actionsHashLast = ''a,b'', healthCheckErrors = 0, returned = False\<rparr>]"
    unfolding c using m1 p1 by simp
qed

section \<open>Registration\<close>




section \<open>Recovery\<close>




section \<open>hash is order-independent\<close>

text \<open>C8: for every list of strings and every permutation of it, \<open>hash\<close> gives the same
  fingerprint, namely the sorted list joined with commas.\<close>

theorem hash_permutation:
  "mset xs = mset ys \<Longrightarrow> hash xs = hash ys \<and> hash xs = Join (sort xs) '',''"
  unfolding hash_def Let_def
  by (metis properties_for_sort sorted_sort mset_sort)

theorem hash_permutation_witness:
  "mset [''b'', ''a'', ''ab'', ''B''] = mset [''ab'', ''B'', ''b'', ''a'']
   \<and> hash [''b'', ''a'', ''ab'', ''B''] = hash [''ab'', ''B'', ''b'', ''a'']
   \<and> hash [''b'', ''a'', ''ab'', ''B''] = ''B,a,ab,b''"
proof -
  have p: "mset [''b'', ''a'', ''ab'', ''B''] = mset [''ab'', ''B'', ''b'', ''a'']"
    by simp
  have v: "Join (sort [''b'', ''a'', ''ab'', ''B'']) '','' = ''B,a,ab,b''"
    by simp
  have a: "hash [''b'', ''a'', ''ab'', ''B''] = hash [''ab'', ''B'', ''b'', ''a'']"
    using hash_permutation [OF p] by blast
  have b: "hash [''b'', ''a'', ''ab'', ''B''] = Join (sort [''b'', ''a'', ''ab'', ''B'']) '',''"
    using hash_permutation [OF p] by blast
  show ?thesis
    using p a b [unfolded v] by blast
qed

section \<open>The closure of a restarted monitor\<close>

text \<open>C9: a monitor created by \<open>run\<close> (its chain is the release function of its
  transport, its worker identity is registered) sees a successful probe with a changed
  fingerprint. The re-invoked \<open>run\<close> finds the identity registered and returns \<open>nil\<close>, the
  monitor stores the one-element chain holding that \<open>nil\<close> and returns. From then on,
  after any further events in any environment, calling the closure that the original
  \<open>run\<close> returned calls \<open>nil\<close> and panics; it does not return an error.\<close>

theorem restart_leaves_nil_closure:
  assumes "i < length (monitors c)"
    and "manifest_of e (gets c) (URL (m_ww (monitors c ! i))) = Some h"
    and "hash (Workflows h) \<noteq> wfsHashLast (monitors c ! i)
         \<or> hash (Actions h) \<noteq> actionsHashLast (monitors c ! i)"
    and "m_cleanups (monitors c ! i) = [FnTransport t]"
    and "registeredWorkerIds c (ID (m_ww (monitors c ! i))) \<noteq> None"
  shows "fst (on_timer e fuel i c) = Return ()
     \<and> m_cleanups (monitors (snd (on_timer e fuel i c)) ! i) = [FnNil]
     \<and> fst (call_fn e' (Suc k) (FnRun i) (snd (exec e'' fuel' evs (snd (on_timer e fuel i c)))))
         = Panics NilFunc"
proof -
  note t = on_timer_changed [OF assms, of fuel]
  have fr: "frozen i [FnNil] (snd (on_timer e fuel i c))"
    using t assms(1) by (simp add: frozen_def)
  have "frozen i [FnNil] (snd (exec e'' fuel' evs (snd (on_timer e fuel i c))))"
    using fr by (rule frozen_exec)
  then have "fst (call_fn e' (Suc k) (FnRun i) (snd (exec e'' fuel' evs (snd (on_timer e fuel i c)))))
      = Panics NilFunc"
    by (simp add: frozen_Nil_panics del: call_fn.simps)
  then show ?thesis
    using t fr by (simp add: frozen_def)
qed

text \<open>The worker of the sample controller changes its actions; after the tick and one
  more discovery cycle, the closure of the original \<open>run\<close> panics, and so does the shutdown
  function, which calls it.\<close>

theorem restart_leaves_nil_closure_witness:
  "m_cleanups (monitors (snd (on_timer changing_env 1 0 (discovered changing_env))) ! 0) = [FnNil]
   \<and> fst (call_fn changing_env (Suc 0) (FnRun 0)
            (snd (exec changing_env 1 [ScanTick] (snd (on_timer changing_env 1 0 (discovered changing_env))))))
       = Panics NilFunc
   \<and> fst (shutdown changing_env (Suc 0) (snd (on_timer changing_env 1 0 (discovered changing_env))))
       = Panics NilFunc"
proof -
  have c: "discovered changing_env = discovered failing_env"
    by (rule discovered_changing)
  let ?c = "discovered failing_env"
  let ?h = "\<lparr>Actions = [''a'', ''b'', ''c''], Workflows = [''wf'']\<rparr>"
  have len: "0 < length (monitors ?c)"
    by (simp add: discovered_failing)
  have ok: "manifest_of changing_env (gets ?c) (URL (m_ww (monitors ?c ! 0))) = Some ?h"
    by (simp add: discovered_failing manifest_of_changing)
  have ch: "hash (Workflows ?h) \<noteq> wfsHashLast (monitors ?c ! 0)
      \<or> hash (Actions ?h) \<noteq> actionsHashLast (monitors ?c ! 0)"
    by (simp add: discovered_failing hash_samples)
  have chain: "m_cleanups (monitors ?c ! 0) = [FnTransport 0]"
    by (simp add: discovered_failing)
  have reg: "registeredWorkerIds ?c (ID (m_ww (monitors ?c ! 0))) \<noteq> None"
    by (simp add: discovered_failing w1_def)
  note a = restart_leaves_nil_closure [OF len ok ch chain reg, of 1 changing_env 0 changing_env 1]
  have b: "fst (shutdown changing_env (Suc 0) (snd (on_timer changing_env 1 0 ?c))) = Panics NilFunc"
  proof -
    let ?d = "snd (on_timer changing_env 1 0 ?c)"
    have cl: "cleanups ?d = [FnRun 0]"
      using on_timer_changed [OF len ok ch chain reg, of 1] by (simp add: discovered_failing)
    have "frozen 0 [FnNil] ?d"
      using on_timer_changed [OF len ok ch chain reg, of 1] len by (simp add: frozen_def)
    then have "frozen 0 [FnNil] (?d\<lparr>start_ctx_done := True\<rparr>)"
      by (simp add: frozen_def)
    then have "fst (call_fn changing_env (Suc 0) (FnRun 0) (?d\<lparr>start_ctx_done := True\<rparr>))
        = Panics NilFunc"
      by (simp add: frozen_Nil_panics del: call_fn.simps)
    then have "fst (call_all changing_env (Suc 0) [FnRun 0] (?d\<lparr>start_ctx_done := True\<rparr>))
        = Panics NilFunc"
      by (rule call_all_panics_first)
    then show ?thesis
      unfolding shutdown_def cl .
  qed
  show ?thesis
    unfolding c using a [of "[ScanTick]"] b by simp
qed

section \<open>Healthy ticks\<close>

text \<open>C10: on every successful probe whose fingerprints match the baseline, the monitor
  calls \<open>UpdateWorker\<close> with \<open>isActive = true\<close>, whatever the failure counter is and
  whatever was written before: the tick appends to the trace the probe, the two hash log
  lines, the recovery log line only if the counter was positive, and then the write (with
  its error log line only if the repository call fails).\<close>

theorem healthy_tick_writes_active:
  assumes "i < length (monitors c)"
    and "manifest_of e (gets c) (URL (m_ww (monitors c ! i))) = Some h"
    and "hash (Workflows h) = wfsHashLast (monitors c ! i)"
    and "hash (Actions h) = actionsHashLast (monitors c ! i)"
  shows "fst (on_timer e fuel i c) = Return ()
     \<and> writes (snd (on_timer e fuel i c)) = writes c @ [True]
     \<and> trace (snd (on_timer e fuel i c)) =
         trace c @
         [Probe (URL (m_ww (monitors c ! i))),
          Log (WfsHash (hash (Workflows h)) (wfsHashLast (monitors c ! i))),
          Log (ActionsHash (hash (Actions h)) (actionsHashLast (monitors c ! i)))] @
         (if healthCheckErrors (monitors c ! i) > 0
          then [Log (HealthyAgain (ID (m_ww (monitors c ! i))))] else []) @
         UpdateWorker (m_tenantId (monitors c ! i)) (ID (m_ww (monitors c ! i))) True #
         (case update_worker e (updates c) of
            None \<Rightarrow> []
          | Some err \<Rightarrow> [Log (CouldNotUpdateWorker err)])"
proof -
  note t = on_timer_healthy [OF assms, of fuel]
  have "writes (snd (on_timer e fuel i c)) = writes c @ [True]"
    using writes_append [of "snd (on_timer e fuel i c)" c] t
    by (cases "update_worker e (updates c)") simp_all
  then show ?thesis
    using t by blast
qed

text \<open>A worker that never failed and was never marked inactive: its first healthy tick
  writes \<open>true\<close>.\<close>

theorem healthy_tick_writes_active_witness:
  "healthCheckErrors (monitors (discovered base_env) ! 0) = 0
   \<and> writes (discovered base_env) = []
   \<and> writes (snd (on_timer base_env 1 0 (discovered base_env))) = [True]
   \<and> trace (snd (on_timer base_env 1 0 (discovered base_env))) =
       trace (discovered base_env) @
       [Probe ''http://w1/health'', Log (WfsHash ''wf'' ''wf''), Log (ActionsHash ''a,b'' ''a,b''),
        UpdateWorker ''t1'' ''w1'' True]"
proof -
  let ?c = "discovered base_env"
  let ?h = "\<lparr>Actions = [''b'', ''a''], Workflows = [''wf'']\<rparr>"
  have c: "?c = discovered failing_env"
    by (rule discovered_base)
  have len: "0 < length (monitors ?c)"
    unfolding c by (simp add: discovered_failing)
  have ok: "manifest_of base_env (gets ?c) (URL (m_ww (monitors ?c ! 0))) = Some ?h"
    by (rule manifest_of_base)
  have wf: "hash (Workflows ?h) = wfsHashLast (monitors ?c ! 0)"
    unfolding c by (simp add: discovered_failing hash_samples)
  have ac: "hash (Actions ?h) = actionsHashLast (monitors ?c ! 0)"
    unfolding c by (simp add: discovered_failing hash_samples)
  have z: "healthCheckErrors (monitors ?c ! 0) = 0" "writes ?c = []"
    "m_tenantId (monitors ?c ! 0) = ''t1''" "m_ww (monitors ?c ! 0) = w1"
    "wfsHashLast (monitors ?c ! 0) = ''wf''" "actionsHashLast (monitors ?c ! 0) = ''a,b''"
    "update_worker base_env (updates ?c) = None"
    unfolding c by (simp_all add: discovered_failing writes_def base_env_def)
  show ?thesis
    using healthy_tick_writes_active [OF len ok wf ac, of 1] z
    by (simp add: hash_samples w1_def)
qed

end
